theory Spec2Isabelle
  imports Complex_Main "HOL-Library.Log_Nat" "HOL-Library.AList" "HOL-Library.Sublist"
begin

section \<open>Python values and exceptions\<close>

text \<open>
  The embedding follows \<^verbatim>\<open>src/analytics.py\<close>. An exception of the source is a value
  of \<open>py_error\<close>; a computation that may raise returns \<open>py_error + 'a\<close>, with
  \<open>Inl\<close> the exception. \<open>and_then\<close> sequences two such computations the way
  Python evaluates one expression after another: the first exception ends the evaluation.
\<close>

datatype py_error =
  KeyError | TypeError | ValueError | ZeroDivisionError | OverflowError | FileNotFoundError
  | IsADirectoryError | NotADirectoryError | FileExistsError | CsvError | UnicodeDecodeError

definition and_then :: "py_error + 'a \<Rightarrow> ('a \<Rightarrow> py_error + 'b) \<Rightarrow> py_error + 'b" where
  "and_then m f = (case m of Inl e \<Rightarrow> Inl e | Inr v \<Rightarrow> f v)"

subsection \<open>Floats\<close>

text \<open>
  A Python float is an IEEE 754 binary64 number. A finite one is modelled by its sign
  (\<open>True\<close> for negative, so that \<open>-0.0\<close> differs from \<open>0.0\<close>) and the rational
  number that is its magnitude. Every float operation of the source rounds the exact
  result to the nearest binary64 number, ties to the even significand: \<open>to_double\<close>.
\<close>

datatype pyfloat = Finite bool rat | Infinite bool | NaN

definition round_half_even :: "rat \<Rightarrow> int" where
  "round_half_even x =
     (let f = \<lfloor>x\<rfloor>; d = x - of_int f
      in if d < 1 / 2 then f else if 1 / 2 < d then f + 1 else if even f then f else f + 1)"

text \<open>\<open>ilog2 a\<close> is the binary exponent of a positive rational: \<open>2 powi ilog2 a \<le> a < 2 powi (ilog2 a + 1)\<close>.\<close>

definition ilog2 :: "rat \<Rightarrow> int" where
  "ilog2 a = (case quotient_of a of (p, q) \<Rightarrow>
     (let d = bitlen p - bitlen q in if 2 powi d \<le> a then d else d - 1))"

text \<open>
  The nearest binary64 magnitude of a non-negative rational, the exponent unbounded
  above: 53 significant bits, and no bit below \<open>2 powi (- 1074)\<close> (the subnormal range).
  A result of \<open>2 ^ 1024\<close> or more is beyond the largest float.
\<close>

definition to_double :: "rat \<Rightarrow> rat" where
  "to_double a =
     (if a = 0 then 0
      else let q = max (ilog2 a - 52) (- 1074)
           in of_int (round_half_even (a / 2 powi q)) * 2 powi q)"

definition overflows :: "rat \<Rightarrow> bool" where
  "overflows r = (2 ^ 1024 \<le> r)"

text \<open>
  \<^verbatim>\<open>a / b\<close> on two ints: the quotient correctly rounded. It raises ZeroDivisionError
  on a zero divisor and OverflowError ("integer division result too large for a float")
  when the rounded quotient is beyond the largest float. The sign of the result is the
  exclusive or of the operands' signs, also when \<open>a\<close> is zero.
\<close>

definition py_int_truediv :: "int \<Rightarrow> int \<Rightarrow> py_error + pyfloat" where
  "py_int_truediv a b =
     (if b = 0 then Inl ZeroDivisionError
      else let r = to_double (\<bar>of_int a\<bar> / \<bar>of_int b\<bar>)
           in if overflows r then Inl OverflowError
              else Inr (Finite ((a < 0) \<noteq> (b < 0)) r))"

text \<open>
  \<^verbatim>\<open>x * y\<close> on two floats never raises: a product beyond the largest float is an
  infinity, and zero times an infinity is not a number.
\<close>

fun py_float_mul :: "pyfloat \<Rightarrow> pyfloat \<Rightarrow> pyfloat" where
  "py_float_mul (Finite s m) (Finite t n) =
     (let r = to_double (m * n) in if overflows r then Infinite (s \<noteq> t) else Finite (s \<noteq> t) r)"
| "py_float_mul (Finite s m) (Infinite t) = (if m = 0 then NaN else Infinite (s \<noteq> t))"
| "py_float_mul (Infinite s) (Finite t n) = (if n = 0 then NaN else Infinite (s \<noteq> t))"
| "py_float_mul (Infinite s) (Infinite t) = Infinite (s \<noteq> t)"
| "py_float_mul NaN y = NaN"
| "py_float_mul x NaN = NaN"

text \<open>
  \<^verbatim>\<open>round(x, ndigits)\<close> on a float, for \<open>0 \<le> ndigits \<le> 323\<close>: the exact value of
  \<open>x\<close> is rounded to \<open>ndigits\<close> decimal places, ties to the even digit, and the
  decimal is converted back to the nearest float. An infinity and a NaN round to
  themselves; a result beyond the largest float raises OverflowError ("rounded value
  too large to represent").
\<close>

fun py_round :: "pyfloat \<Rightarrow> nat \<Rightarrow> py_error + pyfloat" where
  "py_round (Finite s m) ndigits =
     (let r = to_double (of_int (round_half_even (m * 10 ^ ndigits)) / 10 ^ ndigits)
      in if overflows r then Inl OverflowError else Inr (Finite s r))"
| "py_round (Infinite s) ndigits = Inr (Infinite s)"
| "py_round NaN ndigits = Inr NaN"

subsection \<open>Objects: the values a report holds\<close>

text \<open>
  A dict keeps its keys in insertion order, which is the order the writer serialises
  them in: it is an association list. The empty dict \<open>PDict []\<close> is the empty-result
  sentinel.
\<close>

datatype pyobj = PInt int | PFloat pyfloat | PStr string | PDict "(string \<times> pyobj) list"

text \<open>\<^verbatim>\<open>d[k]\<close> and \<^verbatim>\<open>d[k1][k2]\<close> on a dict, \<open>None\<close> where the source would raise.\<close>

fun getitem :: "pyobj \<Rightarrow> string \<Rightarrow> pyobj option" where
  "getitem (PDict kvs) k = map_of kvs k"
| "getitem obj k = None"

definition getitem2 :: "pyobj \<Rightarrow> string \<Rightarrow> string \<Rightarrow> pyobj option" where
  "getitem2 d k1 k2 = (case getitem d k1 of None \<Rightarrow> None | Some sub \<Rightarrow> getitem sub k2)"

subsection \<open>Integers as text\<close>

definition digit_char :: "nat \<Rightarrow> char" where
  "digit_char n = ''0123456789'' ! n"

fun str_nat :: "nat \<Rightarrow> string" where
  "str_nat n = (if n < 10 then [digit_char n] else str_nat (n div 10) @ [digit_char (n mod 10)])"

declare str_nat.simps [simp del]

text \<open>\<^verbatim>\<open>str(i)\<close>, which is also how an f-string renders an int.\<close>

definition py_str :: "int \<Rightarrow> string" where
  "py_str i = (if i < 0 then CHR ''-'' # str_nat (nat (- i)) else str_nat (nat i))"

section \<open>The reader\<close>

text \<open>
  What the Python runtime supplies and the source only calls is a parameter of the
  model: \<open>csv_reader\<close> is \<^verbatim>\<open>csv.reader\<close> on a file opened as UTF-8 text, given the
  bytes of the file: the rows it yields, each a list of fields, an empty list for a
  blank line, and the exception that ends the iteration, if one does (\<^verbatim>\<open>csv.Error\<close>
  on a field beyond the size limit, UnicodeDecodeError on bytes that are no UTF-8). The
  exception is raised when the reader is asked for the row after the last one it
  yielded, so the rows before it have been consumed by then. \<open>int_of_str\<close> is the
  builtin \<^verbatim>\<open>int\<close> on a string (\<open>None\<close> where it raises ValueError), and
  \<open>float_repr\<close> is \<^verbatim>\<open>float.__repr__\<close> on a finite float, given as sign and magnitude.
\<close>

record runtime =
  csv_reader :: "string \<Rightarrow> string list list \<times> py_error option"
  int_of_str :: "string \<Rightarrow> int option"
  float_repr :: "bool \<Rightarrow> rat \<Rightarrow> string"

text \<open>
  \<^verbatim>\<open>csv.DictReader\<close>: the first row names the fields; blank rows after it are
  skipped; every other row becomes a dict from field name to field. A value of the dict
  is \<open>Some s\<close> for the text \<open>s\<close> and \<open>None\<close> for Python's \<^verbatim>\<open>None\<close>, which is what
  a row shorter than the header gets for the fields it lacks. (The surplus fields of a
  longer row are stored under the key \<^verbatim>\<open>None\<close>, which is no field name and which the
  source never reads.)
\<close>

type_synonym row_dict = "string \<rightharpoonup> string option"

definition dict_row :: "string list \<Rightarrow> string list \<Rightarrow> row_dict" where
  "dict_row fieldnames row =
     (let d = Map.empty(fieldnames [\<mapsto>] map Some row);
          lf = length fieldnames;
          lr = length row
      in if lr < lf then fold (\<lambda>key d. d(key \<mapsto> None)) (drop lr fieldnames) d else d)"

fun DictReader :: "string list list \<Rightarrow> row_dict list" where
  "DictReader [] = []"
| "DictReader (fieldnames # rows) = map (dict_row fieldnames) (filter (\<lambda>row. row \<noteq> []) rows)"

record game =
  game_id :: int
  date :: "string option"
  opponent :: "string option"
  home_away :: "string option"
  points_scored :: int
  points_allowed :: int
  rushing_yards :: int
  passing_yards :: int
  turnovers :: int
  result :: "string option"

text \<open>\<^verbatim>\<open>row[key]\<close>: KeyError when the dict has no such key.\<close>

definition row_get :: "row_dict \<Rightarrow> string \<Rightarrow> py_error + string option" where
  "row_get row key = (case row key of None \<Rightarrow> Inl KeyError | Some v \<Rightarrow> Inr v)"

text \<open>\<^verbatim>\<open>int(v)\<close>: TypeError on \<^verbatim>\<open>None\<close>, ValueError on a text that is no integer.\<close>

definition py_int :: "runtime \<Rightarrow> string option \<Rightarrow> py_error + int" where
  "py_int rt v =
     (case v of
        None \<Rightarrow> Inl TypeError
      | Some s \<Rightarrow> (case int_of_str rt s of None \<Rightarrow> Inl ValueError | Some i \<Rightarrow> Inr i))"

definition int_field :: "runtime \<Rightarrow> row_dict \<Rightarrow> string \<Rightarrow> py_error + int" where
  "int_field rt row key = and_then (row_get row key) (py_int rt)"

text \<open>The dict literal of lines 28 to 39; its entries are evaluated in the order written.\<close>

definition make_game :: "runtime \<Rightarrow> row_dict \<Rightarrow> py_error + game" where
  "make_game rt row =
     and_then (int_field rt row ''game_id'') (\<lambda>v_game_id.
     and_then (row_get row ''date'') (\<lambda>v_date.
     and_then (row_get row ''opponent'') (\<lambda>v_opponent.
     and_then (row_get row ''home_away'') (\<lambda>v_home_away.
     and_then (int_field rt row ''points_scored'') (\<lambda>v_points_scored.
     and_then (int_field rt row ''points_allowed'') (\<lambda>v_points_allowed.
     and_then (int_field rt row ''rushing_yards'') (\<lambda>v_rushing_yards.
     and_then (int_field rt row ''passing_yards'') (\<lambda>v_passing_yards.
     and_then (int_field rt row ''turnovers'') (\<lambda>v_turnovers.
     and_then (row_get row ''result'') (\<lambda>v_result.
       Inr \<lparr>game_id = v_game_id, date = v_date, opponent = v_opponent,
            home_away = v_home_away, points_scored = v_points_scored,
            points_allowed = v_points_allowed, rushing_yards = v_rushing_yards,
            passing_yards = v_passing_yards, turnovers = v_turnovers,
            result = v_result\<rparr>))))))))))"

text \<open>The loop of lines 27 to 40: \<open>games\<close> is the list built so far.\<close>

fun read_rows :: "runtime \<Rightarrow> row_dict list \<Rightarrow> game list \<Rightarrow> py_error + game list" where
  "read_rows rt [] games = Inr games"
| "read_rows rt (row # rows) games =
     (case make_game rt row of
        Inl e \<Rightarrow> Inl e
      | Inr g \<Rightarrow> read_rows rt rows (games @ [g]))"

text \<open>
  A path is the list of its components, as \<^verbatim>\<open>pathlib\<close> splits it; the empty list
  is the current directory. A file system lists paths, in the order a directory listing
  gives them, each with what is there: a regular file and its bytes, or a directory. A
  path is a directory when it is listed as one or when a listed path lies below it.
  (Permissions, links and devices are not modelled.)
\<close>

type_synonym path = "string list"

datatype node = File string | Directory

type_synonym filesystem = "(path \<times> node) list"

definition file_at :: "filesystem \<Rightarrow> path \<Rightarrow> bool" where
  "file_at fs p = (case map_of fs p of Some (File content) \<Rightarrow> True | _ \<Rightarrow> False)"

definition is_dir :: "filesystem \<Rightarrow> path \<Rightarrow> bool" where
  "is_dir fs p =
     (p = [] \<or> map_of fs p = Some Directory \<or> list_ex (strict_prefix p) (map fst fs))"

text \<open>
  \<^verbatim>\<open>open(path, "r")\<close>: NotADirectoryError when a component before the last is a
  regular file, IsADirectoryError on a directory, FileNotFoundError where nothing is,
  and the bytes of a regular file.
\<close>

definition open_read :: "filesystem \<Rightarrow> path \<Rightarrow> py_error + string" where
  "open_read fs p =
     (if list_ex (file_at fs) (butlast (prefixes p)) then Inl NotADirectoryError
      else if is_dir fs p then Inl IsADirectoryError
      else (case map_of fs p of
              Some (File content) \<Rightarrow> Inr content
            | _ \<Rightarrow> Inl FileNotFoundError))"

text \<open>
  Lines 24 to 41: the file is opened, every row the reader yields is made a record, and
  the exception that ends the reader's iteration, if there is one, is raised after the
  last row it yielded has been made a record.
\<close>

definition read_game_stats :: "runtime \<Rightarrow> filesystem \<Rightarrow> path \<Rightarrow> py_error + game list" where
  "read_game_stats rt fs input_path =
     and_then (open_read fs input_path) (\<lambda>content.
       case csv_reader rt content of
         (rows, failure) \<Rightarrow>
           and_then (read_rows rt (DictReader rows) []) (\<lambda>games.
             case failure of None \<Rightarrow> Inr games | Some e \<Rightarrow> Inl e))"

section \<open>The aggregator\<close>

definition is_win :: "game \<Rightarrow> bool" where
  "is_win g = (result g = Some ''W'')"

text \<open>\<^verbatim>\<open>sum(1 for g in games if g["result"] == "W")\<close>\<close>

definition count_wins :: "game list \<Rightarrow> int" where
  "count_wins games = sum_list (map (\<lambda>g. 1) (filter is_win games))"

text \<open>\<^verbatim>\<open>round(a / b, ndigits)\<close> on two ints.\<close>

definition rounded_ratio :: "int \<Rightarrow> int \<Rightarrow> nat \<Rightarrow> py_error + pyobj" where
  "rounded_ratio a b ndigits =
     and_then (py_int_truediv a b) (\<lambda>q.
     and_then (py_round q ndigits) (\<lambda>r. Inr (PFloat r)))"

text \<open>\<^verbatim>\<open>round(wins / total_games * 100, 1) if total_games > 0 else 0\<close>\<close>

definition win_percentage_of :: "int \<Rightarrow> int \<Rightarrow> py_error + pyobj" where
  "win_percentage_of wins total_games =
     (if total_games > 0
      then and_then (py_int_truediv wins total_games) (\<lambda>q.
           and_then (py_round (py_float_mul q (Finite False 100)) 1) (\<lambda>r. Inr (PFloat r)))
      else Inr (PInt 0))"

definition calculate_analytics :: "game list \<Rightarrow> py_error + pyobj" where
  "calculate_analytics games =
     (if games = [] then Inr (PDict [])
      else
        let total_games = int (length games);
            wins = count_wins games;
            losses = total_games - wins;
            total_points_scored = sum_list (map points_scored games);
            total_points_allowed = sum_list (map points_allowed games);
            total_rushing_yards = sum_list (map rushing_yards games);
            total_passing_yards = sum_list (map passing_yards games);
            total_turnovers = sum_list (map turnovers games);
            home_games = filter (\<lambda>g. home_away g = Some ''home'') games;
            away_games = filter (\<lambda>g. home_away g = Some ''away'') games;
            home_wins = count_wins home_games;
            away_wins = count_wins away_games
        in
          and_then (win_percentage_of wins total_games) (\<lambda>win_percentage.
          and_then (rounded_ratio total_points_scored total_games 1) (\<lambda>avg_points_scored.
          and_then (rounded_ratio total_points_allowed total_games 1) (\<lambda>avg_points_allowed.
          and_then (rounded_ratio total_rushing_yards total_games 1) (\<lambda>avg_rushing_yards.
          and_then (rounded_ratio total_passing_yards total_games 1) (\<lambda>avg_passing_yards.
          and_then (rounded_ratio (total_rushing_yards + total_passing_yards) total_games 1)
            (\<lambda>avg_total_yards.
          and_then (rounded_ratio total_turnovers total_games 2) (\<lambda>avg_turnovers_per_game.
            Inr (PDict
              [(''summary'', PDict
                 [(''total_games'', PInt total_games),
                  (''wins'', PInt wins),
                  (''losses'', PInt losses),
                  (''win_percentage'', win_percentage)]),
               (''scoring'', PDict
                 [(''total_points_scored'', PInt total_points_scored),
                  (''total_points_allowed'', PInt total_points_allowed),
                  (''avg_points_scored'', avg_points_scored),
                  (''avg_points_allowed'', avg_points_allowed),
                  (''point_differential'', PInt (total_points_scored - total_points_allowed))]),
               (''offense'', PDict
                 [(''total_rushing_yards'', PInt total_rushing_yards),
                  (''total_passing_yards'', PInt total_passing_yards),
                  (''total_yards'', PInt (total_rushing_yards + total_passing_yards)),
                  (''avg_rushing_yards'', avg_rushing_yards),
                  (''avg_passing_yards'', avg_passing_yards),
                  (''avg_total_yards'', avg_total_yards)]),
               (''turnovers'', PDict
                 [(''total_turnovers'', PInt total_turnovers),
                  (''avg_turnovers_per_game'', avg_turnovers_per_game)]),
               (''home_away'', PDict
                 [(''home_record'',
                     PStr (py_str home_wins @ ''-'' @ py_str (int (length home_games) - home_wins))),
                  (''away_record'',
                     PStr (py_str away_wins @ ''-'' @ py_str (int (length away_games) - away_wins)))])
              ])))))))))"

section \<open>The writer\<close>

text \<open>
  \<^verbatim>\<open>json.dump(analytics, jsonfile, indent=2)\<close>: an empty dict is \<^verbatim>\<open>{}\<close>; the items
  of another are written one per line, indented by two spaces per nesting level. The
  keys and strings of a report consist of letters, digits, \<^verbatim>\<open>_\<close> and \<^verbatim>\<open>-\<close>, which
  the encoder copies between double quotes unchanged.
\<close>

definition newline :: string where
  "newline = [CHR 0x0A]"

definition json_string :: "string \<Rightarrow> string" where
  "json_string s = [CHR 0x22] @ s @ [CHR 0x22]"

fun json_float :: "(bool \<Rightarrow> rat \<Rightarrow> string) \<Rightarrow> pyfloat \<Rightarrow> string" where
  "json_float repr (Finite s m) = repr s m"
| "json_float repr (Infinite s) = (if s then ''-Infinity'' else ''Infinity'')"
| "json_float repr NaN = ''NaN''"

fun join :: "string \<Rightarrow> string list \<Rightarrow> string" where
  "join sep [] = []"
| "join sep [x] = x"
| "join sep (x # y # ys) = x @ sep @ join sep (y # ys)"

fun json_dumps :: "(bool \<Rightarrow> rat \<Rightarrow> string) \<Rightarrow> nat \<Rightarrow> pyobj \<Rightarrow> string" where
  "json_dumps repr level (PInt i) = py_str i"
| "json_dumps repr level (PFloat x) = json_float repr x"
| "json_dumps repr level (PStr s) = json_string s"
| "json_dumps repr level (PDict kvs) =
     (if kvs = [] then ''{}''
      else ''{'' @ newline @ replicate (2 * Suc level) CHR '' ''
           @ join ('','' @ newline @ replicate (2 * Suc level) CHR '' '')
                (map (\<lambda>kv. json_string (fst kv) @ '': '' @ json_dumps repr (Suc level) (snd kv)) kvs)
           @ newline @ replicate (2 * level) CHR '' '' @ ''}'')"

text \<open>
  \<^verbatim>\<open>os.makedirs(name, exist_ok=True)\<close>: FileNotFoundError on the empty path, whatever
  \<^verbatim>\<open>exist_ok\<close> is; NotADirectoryError when a component before the last is a regular
  file; FileExistsError when \<open>name\<close> itself is a regular file; otherwise the
  directories that are missing are created. It raises before it creates anything.
\<close>

definition makedirs_error :: "filesystem \<Rightarrow> path \<Rightarrow> py_error option" where
  "makedirs_error fs name =
     (if name = [] then Some FileNotFoundError
      else if list_ex (file_at fs) (butlast (prefixes name)) then Some NotADirectoryError
      else if file_at fs name then Some FileExistsError
      else None)"

text \<open>
  Lines 116 to 118. \<^verbatim>\<open>os.path.dirname(output_path)\<close> is the path without its last
  component. After \<^verbatim>\<open>os.makedirs\<close>, \<^verbatim>\<open>open(output_path, "w")\<close> raises
  IsADirectoryError on a directory; otherwise the file is created, or overwritten where
  it is, and the directories made for it are those its path lies below.
\<close>

definition write_analytics ::
  "runtime \<Rightarrow> pyobj \<Rightarrow> path \<Rightarrow> filesystem \<Rightarrow> py_error + filesystem" where
  "write_analytics rt analytics output_path fs =
     (case makedirs_error fs (butlast output_path) of
        Some e \<Rightarrow> Inl e
      | None \<Rightarrow>
          if is_dir fs output_path then Inl IsADirectoryError
          else Inr (AList.update output_path (File (json_dumps (float_repr rt) 0 analytics)) fs))"

section \<open>The orchestrator\<close>

text \<open>
  \<^verbatim>\<open>input_path.glob("*.csv")\<close>: the entries directly in the directory whose name
  ends in \<^verbatim>\<open>.csv\<close>, regular files and directories alike, each once, in listing
  order. The name of the entry through which a path below the directory passes is the
  component of the path that follows the directory's.
\<close>

definition glob_csv :: "filesystem \<Rightarrow> path \<Rightarrow> path list" where
  "glob_csv fs input_path =
     map (\<lambda>name. input_path @ [name])
       (remdups (filter (suffix ''.csv'')
          (map (\<lambda>q. q ! length input_path) (filter (strict_prefix input_path) (map fst fs)))))"

text \<open>The loop of lines 145 to 147.\<close>

fun read_all :: "runtime \<Rightarrow> filesystem \<Rightarrow> path list \<Rightarrow> game list \<Rightarrow> py_error + game list" where
  "read_all rt fs [] all_games = Inr all_games"
| "read_all rt fs (csv_file # csv_files) all_games =
     (case read_game_stats rt fs csv_file of
        Inl e \<Rightarrow> Inl e
      | Inr games \<Rightarrow> read_all rt fs csv_files (all_games @ games))"

definition output_file :: "path \<Rightarrow> path" where
  "output_file output_path = output_path @ [''eagles_analytics_report.json'']"

text \<open>
  A run returns what \<^verbatim>\<open>run_analytics\<close> returns or raises, and the file system it
  leaves. (What it prints is not modelled.)
\<close>

definition run_analytics ::
  "runtime \<Rightarrow> path \<Rightarrow> path \<Rightarrow> filesystem \<Rightarrow> (py_error + pyobj) \<times> filesystem" where
  "run_analytics rt input_path output_path fs =
     (let csv_files = glob_csv fs input_path
      in if csv_files = [] then (Inr (PDict []), fs)
         else
           case read_all rt fs csv_files [] of
             Inl e \<Rightarrow> (Inl e, fs)
           | Inr all_games \<Rightarrow>
               (case calculate_analytics all_games of
                  Inl e \<Rightarrow> (Inl e, fs)
                | Inr analytics \<Rightarrow>
                    (case write_analytics rt analytics (output_file output_path) fs of
                       Inl e \<Rightarrow> (Inl e, fs)
                     | Inr fs' \<Rightarrow> (Inr analytics, fs'))))"

section \<open>The conditions the specification speaks of\<close>

text \<open>
  The ten fields a row must supply, in the order the reader evaluates them, and the six
  of them it converts with \<^verbatim>\<open>int\<close>.
\<close>

definition required_fields :: "string list" where
  "required_fields =
     [''game_id'', ''date'', ''opponent'', ''home_away'', ''points_scored'',
      ''points_allowed'', ''rushing_yards'', ''passing_yards'', ''turnovers'', ''result'']"

definition int_fields :: "string list" where
  "int_fields =
     [''game_id'', ''points_scored'', ''points_allowed'', ''rushing_yards'',
      ''passing_yards'', ''turnovers'']"

text \<open>
  An integer field is unreadable when the row's dict has no such key, holds
  \<^verbatim>\<open>None\<close> for it (the row is too short to supply it), or holds a text that
  \<^verbatim>\<open>int\<close> rejects. A row is unreadable when its dict lacks one of the ten keys or
  one of its integer fields is unreadable.
\<close>

definition int_unreadable :: "runtime \<Rightarrow> row_dict \<Rightarrow> string \<Rightarrow> bool" where
  "int_unreadable rt row key =
     (case row key of
        None \<Rightarrow> True
      | Some None \<Rightarrow> True
      | Some (Some s) \<Rightarrow> int_of_str rt s = None)"

definition unreadable :: "runtime \<Rightarrow> row_dict \<Rightarrow> bool" where
  "unreadable rt row =
     (list_ex (\<lambda>key. row key = None) required_fields \<or> list_ex (int_unreadable rt row) int_fields)"

text \<open>The exceptions the specification calls a ParseError.\<close>

definition is_parse_error :: "py_error \<Rightarrow> bool" where
  "is_parse_error e = (e = KeyError \<or> e = TypeError \<or> e = ValueError)"

text \<open>A record whose five statistics are at most \<open>2 ^ 999\<close> in absolute value.\<close>

definition moderate :: "game \<Rightarrow> bool" where
  "moderate g =
     (\<bar>points_scored g\<bar> \<le> 2 ^ 999 \<and> \<bar>points_allowed g\<bar> \<le> 2 ^ 999 \<and>
      \<bar>rushing_yards g\<bar> \<le> 2 ^ 999 \<and> \<bar>passing_yards g\<bar> \<le> 2 ^ 999 \<and>
      \<bar>turnovers g\<bar> \<le> 2 ^ 999)"

text \<open>
  The largest float is \<open>2 ^ 1024 - 2 ^ 971\<close>. A quotient rounds beyond it exactly when
  its magnitude is at least \<open>2 ^ 1024 - 2 ^ 970\<close>, halfway from the largest float to
  \<open>2 ^ 1024\<close>. \<open>beyond_float s n\<close> says so of \<open>s / n\<close> for a positive \<open>n\<close>,
  in integers; \<open>average_overflows\<close> says it of one of the six totals the aggregator
  divides by the number of games.
\<close>

definition float_limit :: int where
  "float_limit = 2 ^ 1024 - 2 ^ 970"

definition beyond_float :: "int \<Rightarrow> int \<Rightarrow> bool" where
  "beyond_float s n = (float_limit * n \<le> \<bar>s\<bar>)"

definition average_overflows :: "game list \<Rightarrow> bool" where
  "average_overflows games =
     list_ex (\<lambda>s. beyond_float s (int (length games)))
       [sum_list (map points_scored games), sum_list (map points_allowed games),
        sum_list (map rushing_yards games), sum_list (map passing_yards games),
        sum_list (map rushing_yards games) + sum_list (map passing_yards games),
        sum_list (map turnovers games)]"

text \<open>
  The directory has an entry, a regular file or a directory, whose name ends in
  \<^verbatim>\<open>.csv\<close>: a listed path passes through such a name right below the directory.
\<close>

definition csv_entry :: "filesystem \<Rightarrow> path \<Rightarrow> bool" where
  "csv_entry fs input_path =
     list_ex (\<lambda>q. strict_prefix input_path q \<and> suffix ''.csv'' (q ! length input_path)) (map fst fs)"


text \<open>What a run does with the records it has read: lines 149 to 156.\<close>

definition report_and_write ::
  "runtime \<Rightarrow> path \<Rightarrow> filesystem \<Rightarrow> game list \<Rightarrow> (py_error + pyobj) \<times> filesystem" where
  "report_and_write rt output_path fs all_games =
     (case calculate_analytics all_games of
        Inl e \<Rightarrow> (Inl e, fs)
      | Inr analytics \<Rightarrow>
          (case write_analytics rt analytics (output_file output_path) fs of
             Inl e \<Rightarrow> (Inl e, fs)
           | Inr fs' \<Rightarrow> (Inr analytics, fs')))"

section \<open>Sample inputs\<close>

text \<open>
  A runtime to evaluate the model on: \<open>plain_csv\<close> splits a text at line feeds and
  commas, as \<^verbatim>\<open>csv.reader\<close> does where there are no quotes and no carriage returns, and
  \<open>plain_reader\<close> yields its rows and raises nothing;
  \<open>plain_int\<close> reads a decimal numeral with an optional minus sign, on which it agrees
  with \<^verbatim>\<open>int\<close>; \<open>integral_repr\<close> prints a float by its integer part, as
  \<^verbatim>\<open>float.__repr__\<close> prints an integral float below \<open>10 ^ 16\<close>.
\<close>

fun split_on :: "char \<Rightarrow> string \<Rightarrow> string list" where
  "split_on c [] = [[]]"
| "split_on c (x # xs) =
     (if x = c then [] # split_on c xs
      else (case split_on c xs of [] \<Rightarrow> [[x]] | w # ws \<Rightarrow> (x # w) # ws))"

definition plain_csv :: "string \<Rightarrow> string list list" where
  "plain_csv text =
     (let ls = split_on CHR 0x0A text
      in map (\<lambda>line. if line = [] then [] else split_on CHR '','' line)
           (if last ls = [] then butlast ls else ls))"

definition digit_of :: "char \<Rightarrow> nat option" where
  "digit_of c = map_of (zip ''0123456789'' [0, 1, 2, 3, 4, 5, 6, 7, 8, 9]) c"

fun digits_value :: "string \<Rightarrow> nat \<Rightarrow> nat option" where
  "digits_value [] acc = Some acc"
| "digits_value (c # cs) acc =
     (case digit_of c of None \<Rightarrow> None | Some d \<Rightarrow> digits_value cs (10 * acc + d))"

definition plain_int :: "string \<Rightarrow> int option" where
  "plain_int s =
     (case s of
        [] \<Rightarrow> None
      | c # cs \<Rightarrow>
          if c = CHR ''-''
          then (if cs = [] then None else map_option (\<lambda>n. - int n) (digits_value cs 0))
          else map_option int (digits_value s 0))"

definition integral_repr :: "bool \<Rightarrow> rat \<Rightarrow> string" where
  "integral_repr s m = (if s then ''-'' else []) @ str_nat (nat \<lfloor>m\<rfloor>) @ ''.0''"

definition plain_reader :: "string \<Rightarrow> string list list \<times> py_error option" where
  "plain_reader text = (plain_csv text, None)"

definition sample_runtime :: runtime where
  "sample_runtime = \<lparr>csv_reader = plain_reader, int_of_str = plain_int, float_repr = integral_repr\<rparr>"

text \<open>Three games: a home win, an away loss and a win on neutral ground.\<close>

definition home_win :: game where
  "home_win =
     \<lparr>game_id = 1, date = Some ''2024-09-06'', opponent = Some ''GB'', home_away = Some ''home'',
      points_scored = 30, points_allowed = 20, rushing_yards = 100, passing_yards = 200,
      turnovers = 1, result = Some ''W''\<rparr>"

definition away_loss :: game where
  "away_loss =
     \<lparr>game_id = 2, date = Some ''2024-09-16'', opponent = Some ''ATL'', home_away = Some ''away'',
      points_scored = 10, points_allowed = 40, rushing_yards = 50, passing_yards = 100,
      turnovers = 2, result = Some ''L''\<rparr>"

definition neutral_win :: game where
  "neutral_win =
     \<lparr>game_id = 3, date = Some ''2024-09-22'', opponent = Some ''NO'', home_away = Some ''neutral'',
      points_scored = 20, points_allowed = 30, rushing_yards = 150, passing_yards = 300,
      turnovers = 0, result = Some ''W''\<rparr>"

definition season :: "game list" where
  "season = [home_win, away_loss, neutral_win]"

text \<open>Three home games: won, lost, won.\<close>

definition home_loss :: game where
  "home_loss = home_win\<lparr>game_id := 4, opponent := Some ''DAL'', points_scored := 15, points_allowed := 35,
     result := Some ''L''\<rparr>"

definition three_at_home :: "game list" where
  "three_at_home = [home_win, home_loss, home_win]"

text \<open>A second home win, which makes the averages of the four games integral.\<close>

definition second_home_win :: game where
  "second_home_win =
     \<lparr>game_id = 4, date = Some ''2024-09-29'', opponent = Some ''TB'', home_away = Some ''home'',
      points_scored = 20, points_allowed = 10, rushing_yards = 100, passing_yards = 200,
      turnovers = 1, result = Some ''W''\<rparr>"

text \<open>The same away loss read from a row that stops before its \<^verbatim>\<open>result\<close> field.\<close>

definition away_no_result :: game where
  "away_no_result =
     \<lparr>game_id = 2, date = Some ''2024-09-16'', opponent = Some ''ATL'', home_away = Some ''away'',
      points_scored = 10, points_allowed = 40, rushing_yards = 50, passing_yards = 100,
      turnovers = 2, result = None\<rparr>"

definition header_line :: string where
  "header_line = ''game_id,date,opponent,home_away,points_scored,points_allowed,rushing_yards,passing_yards,turnovers,result''"

definition home_win_line :: string where
  "home_win_line = ''1,2024-09-06,GB,home,30,20,100,200,1,W''"

definition second_home_win_line :: string where
  "second_home_win_line = ''4,2024-09-29,TB,home,20,10,100,200,1,W''"

definition away_loss_line :: string where
  "away_loss_line = ''2,2024-09-16,ATL,away,10,40,50,100,2,L''"

definition neutral_win_line :: string where
  "neutral_win_line = ''3,2024-09-22,NO,neutral,20,30,150,300,0,W''"

text \<open>The away loss without its last field, and without its last two.\<close>

definition no_result_line :: string where
  "no_result_line = ''2,2024-09-16,ATL,away,10,40,50,100,2''"

definition no_turnovers_line :: string where
  "no_turnovers_line = ''2,2024-09-16,ATL,away,10,40,50,100''"

definition csv_text :: "string list \<Rightarrow> string" where
  "csv_text ls = concat (map (\<lambda>l. l @ newline) ls)"

text \<open>
  File systems: one with two sources, one whose source has a short row, one whose second
  source lacks a field the reader converts, one with no source, one whose only entry of
  a matching name is a directory, and one whose only source is a header without rows.
\<close>

definition two_sources :: filesystem where
  "two_sources =
     [([''input'', ''week1.csv''], File (csv_text [header_line, home_win_line, second_home_win_line])),
      ([''input'', ''notes.txt''], File ''bye week''),
      ([''input'', ''later.csv''], File (csv_text [header_line, away_loss_line, [], neutral_win_line]))]"

definition short_row_source :: filesystem where
  "short_row_source = [([''input'', ''games.csv''], File (csv_text [header_line, no_result_line]))]"

definition no_turnovers_source :: filesystem where
  "no_turnovers_source =
     [([''input'', ''week1.csv''], File (csv_text [header_line, home_win_line])),
      ([''input'', ''games.csv''], File (csv_text [header_line, home_win_line, no_turnovers_line]))]"

definition no_sources :: filesystem where
  "no_sources =
     [([''input'', ''notes.txt''], File ''bye week''),
      ([''input'', ''old'', ''games.csv''], File header_line),
      ([''input'', ''archive''], Directory)]"

definition csv_directory :: filesystem where
  "csv_directory = [([''input'', ''old.csv'', ''notes.txt''], File ''bye week'')]"

definition header_only :: filesystem where
  "header_only = [([''input'', ''games.csv''], File (csv_text [header_line]))]"

text \<open>
  Records with one statistic of \<open>2 ^ 1024\<close>, which is beyond the largest float.
\<close>

definition huge_points_scored :: game where
  "huge_points_scored = home_win\<lparr>points_scored := 2 ^ 1024\<rparr>"

definition huge_points_allowed :: game where
  "huge_points_allowed = home_win\<lparr>points_allowed := 2 ^ 1024\<rparr>"

definition huge_rushing_yards :: game where
  "huge_rushing_yards = home_win\<lparr>rushing_yards := 2 ^ 1024\<rparr>"

definition huge_passing_yards :: game where
  "huge_passing_yards = home_win\<lparr>passing_yards := 2 ^ 1024\<rparr>"

definition huge_turnovers :: game where
  "huge_turnovers = home_win\<lparr>turnovers := 2 ^ 1024\<rparr>"
section \<open>Rounding to the nearest float\<close>

lemma round_half_even_bounds:
  "of_int (round_half_even x) \<le> x + 1 / 2" "x - 1 / 2 \<le> of_int (round_half_even x)"
  unfolding round_half_even_def Let_def by (auto; linarith)+

lemma round_half_even_of_int [simp]: "round_half_even (of_int n) = n"
  by (simp add: round_half_even_def)

lemma round_half_even_ge_int:
  assumes "of_int n \<le> x" shows "n \<le> round_half_even x"
proof -
  have "(of_int n :: rat) - 1 / 2 \<le> of_int (round_half_even x)"
    using assms round_half_even_bounds(2) [of x] by linarith
  then have "(of_int n :: rat) < of_int (round_half_even x) + 1" by linarith
  then have "(of_int n :: rat) < of_int (round_half_even x + 1)" by simp
  then have "n < round_half_even x + 1" by (simp only: of_int_less_iff)
  then show ?thesis by simp
qed

lemma pow2_bitlen:
  assumes "0 < x"
  shows "(2::rat) powi (bitlen x - 1) \<le> of_int x" "(of_int x :: rat) < 2 powi bitlen x"
proof -
  from assms have b: "1 \<le> bitlen x" by (simp add: bitlen_alt_def)
  from bitlen_bounds [OF assms]
  have l: "2 ^ nat (bitlen x - 1) \<le> x" and u: "x < 2 ^ nat (bitlen x)" by blast+
  have "(of_int (2 ^ nat (bitlen x - 1)) :: rat) \<le> of_int x"
    using l by (simp only: of_int_le_iff)
  then show "(2::rat) powi (bitlen x - 1) \<le> of_int x"
    using b by (simp add: power_int_def)
  have "(of_int x :: rat) < of_int (2 ^ nat (bitlen x))"
    using u by (simp only: of_int_less_iff)
  then show "(of_int x :: rat) < 2 powi bitlen x"
    using b by (simp add: power_int_def)
qed

lemma ilog2_bounds:
  assumes "0 < a"
  shows "2 powi ilog2 a \<le> a" and "a < 2 powi (ilog2 a + 1)"
proof -
  obtain p q where pq: "quotient_of a = (p, q)" by (cases "quotient_of a")
  then have q: "0 < q" and a: "a = of_int p / of_int q"
    by (auto intro: quotient_of_denom_pos quotient_of_div)
  have p: "0 < p" using assms q a by (simp add: zero_less_divide_iff)
  let ?d = "bitlen p - bitlen q"
  have qr: "(0::rat) < of_int q" using q by simp
  have up: "a < 2 powi (?d + 1)"
  proof -
    have "of_int p < (2::rat) powi bitlen p" by (rule pow2_bitlen [OF p])
    moreover have "(2::rat) powi (bitlen q - 1) \<le> of_int q" by (rule pow2_bitlen [OF q])
    moreover have "(2::rat) powi bitlen p = 2 powi (?d + 1) * 2 powi (bitlen q - 1)"
      by (simp flip: power_int_add)
    moreover have "(2::rat) powi (?d + 1) * 2 powi (bitlen q - 1) \<le> 2 powi (?d + 1) * of_int q"
      using pow2_bitlen(1) [OF q] by (intro mult_left_mono) simp_all
    ultimately have "of_int p < (2::rat) powi (?d + 1) * of_int q"
      by linarith
    then show ?thesis unfolding a using qr by (simp add: pos_divide_less_eq)
  qed
  have lo: "2 powi (?d - 1) < a"
  proof -
    have "(2::rat) powi (bitlen p - 1) \<le> of_int p" by (rule pow2_bitlen [OF p])
    moreover have "of_int q < (2::rat) powi bitlen q" by (rule pow2_bitlen [OF q])
    moreover have "(2::rat) powi (bitlen p - 1) = 2 powi (?d - 1) * 2 powi bitlen q"
      by (simp flip: power_int_add)
    moreover have "(2::rat) powi (?d - 1) * of_int q < 2 powi (?d - 1) * 2 powi bitlen q"
      using pow2_bitlen(2) [OF q] by (intro mult_strict_left_mono) simp_all
    ultimately have "(2::rat) powi (?d - 1) * of_int q < of_int p"
      by linarith
    then show ?thesis unfolding a using qr by (simp add: pos_less_divide_eq)
  qed
  have e: "ilog2 a = (if 2 powi ?d \<le> a then ?d else ?d - 1)"
    by (simp add: ilog2_def pq Let_def)
  show "2 powi ilog2 a \<le> a" using lo by (simp add: e)
  show "a < 2 powi (ilog2 a + 1)" using up by (simp add: e)
qed

lemma pow2_split: "(2::rat) powi (m + n) = 2 powi m * 2 powi n"
  by (simp add: power_int_add)

lemma ilog2_less:
  assumes "0 < a" "a < 2 powi k" shows "ilog2 a < k"
proof (rule ccontr)
  assume "\<not> ilog2 a < k"
  then have "(2::rat) powi k \<le> 2 powi ilog2 a"
    by (intro power_int_increasing) simp_all
  with ilog2_bounds(1) [OF assms(1)] assms(2) show False by linarith
qed

lemma ilog2_ge:
  assumes "0 < a" "2 powi k \<le> a" shows "k \<le> ilog2 a"
proof (rule ccontr)
  assume "\<not> k \<le> ilog2 a"
  then have "ilog2 a + 1 \<le> k" by simp
  then have "(2::rat) powi (ilog2 a + 1) \<le> 2 powi k"
    by (intro power_int_increasing) simp_all
  with ilog2_bounds(2) [OF assms(1)] assms(2) show False by linarith
qed

lemma to_double_nonneg:
  assumes "0 \<le> a" shows "0 \<le> to_double a"
proof (cases "a = 0")
  case True then show ?thesis by (simp add: to_double_def)
next
  case False
  define q where "q = max (ilog2 a - 52) (- 1074)"
  have "(0::rat) \<le> a / 2 powi q" using assms by simp
  then have "0 \<le> round_half_even (a / 2 powi q)"
    using round_half_even_ge_int [of 0 "a / 2 powi q"] by simp
  then show ?thesis using False by (simp add: to_double_def Let_def q_def)
qed

lemma to_double_upper:
  assumes "0 \<le> a" shows "to_double a \<le> 2 * a + 1"
proof (cases "a = 0")
  case True then show ?thesis by (simp add: to_double_def)
next
  case False
  with assms have pos: "0 < a" by simp
  define q where "q = max (ilog2 a - 52) (- 1074)"
  define s :: rat where "s = 2 powi q"
  have s: "0 < s" by (simp add: s_def)
  have td: "to_double a = of_int (round_half_even (a / s)) * s"
    using False by (simp add: to_double_def Let_def q_def s_def)
  have "of_int (round_half_even (a / s)) * s \<le> (a / s + 1 / 2) * s"
    using round_half_even_bounds(1) [of "a / s"] s by (intro mult_right_mono) simp_all
  also have "\<dots> = a + s / 2" using s by (simp add: field_simps)
  finally have r: "to_double a \<le> a + s / 2" by (simp add: td)
  have "s \<le> a + 1"
  proof (cases "ilog2 a - 52 \<le> - 1074")
    case True
    then have "s = 2 powi (- 1074)" by (simp add: s_def q_def max_def)
    also have "\<dots> \<le> (2::rat) powi 0" by (intro power_int_increasing) simp_all
    finally show ?thesis using pos by simp
  next
    case False
    then have "s = 2 powi (ilog2 a - 52)" by (simp add: s_def q_def max_def)
    also have "\<dots> \<le> (2::rat) powi ilog2 a" by (intro power_int_increasing) simp_all
    also have "\<dots> \<le> a" by (rule ilog2_bounds(1) [OF pos])
    finally show ?thesis by simp
  qed
  with r pos show ?thesis by linarith
qed

lemma to_double_overflow:
  assumes "2 ^ 1024 \<le> a" shows "2 ^ 1024 \<le> to_double a"
proof -
  have pos: "0 < a" using assms by (rule less_le_trans [rotated]) simp
  have "(2::rat) powi 1024 \<le> a" using assms by simp
  then have e: "1024 \<le> ilog2 a" by (rule ilog2_ge [OF pos])
  define q where "q = ilog2 a - 52"
  define s :: rat where "s = 2 powi q"
  have s: "0 < s" by (simp add: s_def)
  have td: "to_double a = of_int (round_half_even (a / s)) * s"
    using pos e by (simp add: to_double_def Let_def q_def s_def max_def)
  have split: "(2::rat) powi ilog2 a = 2 powi 52 * s"
    unfolding s_def q_def using pow2_split [of 52 "ilog2 a - 52"] by simp
  with ilog2_bounds(1) [OF pos] have "(2::rat) powi 52 * s \<le> a" by simp
  then have "(2::rat) ^ 52 \<le> a / s" using s by (simp add: pos_le_divide_eq)
  then have "(of_int (2 ^ 52) :: rat) \<le> a / s" by simp
  then have "2 ^ 52 \<le> round_half_even (a / s)" by (rule round_half_even_ge_int)
  then have "(of_int (2 ^ 52) :: rat) \<le> of_int (round_half_even (a / s))"
    by (simp only: of_int_le_iff)
  then have "(2::rat) powi 52 * s \<le> of_int (round_half_even (a / s)) * s"
    using s by (intro mult_right_mono) simp_all
  also have "(2::rat) powi 52 * s = 2 powi ilog2 a"
    by (simp only: split)
  finally have "(2::rat) powi ilog2 a \<le> to_double a" by (simp add: td)
  moreover have "(2::rat) powi 1024 \<le> 2 powi ilog2 a"
    using e by (intro power_int_increasing) simp_all
  ultimately show ?thesis by simp
qed

lemma to_double_of_int:
  assumes "0 \<le> n" "n < 2 ^ 53" shows "to_double (of_int n) = of_int n"
proof (cases "n = 0")
  case True then show ?thesis by (simp add: to_double_def)
next
  case False
  with assms have pos: "(0::rat) < of_int n" by simp
  have "(of_int n :: rat) < of_int (2 ^ 53)" using assms(2) by (simp only: of_int_less_iff)
  then have "(of_int n :: rat) < 2 powi 53" by simp
  then have e: "ilog2 (of_int n) < 53" by (rule ilog2_less [OF pos])
  have "(2::rat) powi 0 \<le> of_int n" using pos assms(1) False by simp
  then have e0: "0 \<le> ilog2 (of_int n)" by (rule ilog2_ge [OF pos])
  define k where "k = nat (52 - ilog2 (of_int n))"
  have q: "max (ilog2 (of_int n) - 52) (- 1074) = - int k"
    using e e0 by (simp add: k_def max_def)
  have s: "(2::rat) powi (- int k) = 1 / 2 ^ k" by (simp add: power_int_minus_divide)
  have "of_int n / (1 / 2 ^ k) = (of_int (n * 2 ^ k) :: rat)" by simp
  then have "round_half_even (of_int n / (1 / 2 ^ k)) = n * 2 ^ k"
    by (simp only: round_half_even_of_int)
  then show ?thesis using False
    by (simp add: to_double_def Let_def q s)
qed

lemma round_half_even_le_int:
  assumes "x \<le> of_int n" shows "round_half_even x \<le> n"
proof -
  have "(of_int (round_half_even x) :: rat) \<le> x + 1 / 2" by (rule round_half_even_bounds)
  with assms have "(of_int (round_half_even x) :: rat) < of_int n + 1" by linarith
  then have "(of_int (round_half_even x) :: rat) < of_int (n + 1)" by simp
  then have "round_half_even x < n + 1" by (simp only: of_int_less_iff)
  then show ?thesis by simp
qed

text \<open>
  \<open>to_double\<close> rounds to a float: the result is a significand of at most 53 bits times
  the unit in the last place, \<open>2 powi q\<close>, and it is within half that unit of the
  number rounded.
\<close>

lemma to_double_nearest:
  assumes "0 < a"
  defines "q \<equiv> max (ilog2 a - 52) (- 1074)"
  shows "\<exists>m. to_double a = of_int m * 2 powi q \<and> 0 \<le> m \<and> m \<le> 2 ^ 53 \<and>
    \<bar>to_double a - a\<bar> \<le> 2 powi q / 2"
proof -
  define s :: rat where "s = 2 powi q"
  define m where "m = round_half_even (a / s)"
  have s: "0 < s" by (simp add: s_def)
  have td: "to_double a = of_int m * s"
    using assms(1) by (simp add: to_double_def Let_def q_def s_def m_def)
  have "(of_int 0 :: rat) \<le> a / s" using assms(1) s by simp
  then have m0: "0 \<le> m" unfolding m_def by (rule round_half_even_ge_int)
  have "a < 2 powi (ilog2 a + 1)" by (rule ilog2_bounds(2) [OF assms(1)])
  also have "(2::rat) powi (ilog2 a + 1) \<le> 2 powi (q + 53)"
    by (intro power_int_increasing) (simp_all add: q_def)
  also have "(2::rat) powi (q + 53) = s * 2 ^ 53"
    using pow2_split [of q 53] by (simp add: s_def)
  finally have "a / s < 2 ^ 53" using s by (simp add: pos_divide_less_eq mult.commute)
  then have "a / s \<le> of_int (2 ^ 53)" by simp
  then have m1: "m \<le> 2 ^ 53" unfolding m_def by (rule round_half_even_le_int)
  have "\<bar>of_int m - a / s\<bar> \<le> 1 / 2"
    using round_half_even_bounds [of "a / s"] unfolding m_def by linarith
  then have "\<bar>of_int m - a / s\<bar> * s \<le> 1 / 2 * s" using s by (intro mult_right_mono) simp_all
  moreover have "\<bar>of_int m - a / s\<bar> * s = \<bar>of_int m * s - a\<bar>"
  proof -
    have "\<bar>of_int m - a / s\<bar> * s = \<bar>of_int m - a / s\<bar> * \<bar>s\<bar>" using s by simp
    also have "\<dots> = \<bar>(of_int m - a / s) * s\<bar>" by (simp only: abs_mult)
    also have "(of_int m - a / s) * s = of_int m * s - a" using s by (simp add: left_diff_distrib)
    finally show ?thesis .
  qed
  ultimately have "\<bar>to_double a - a\<bar> \<le> s / 2" by (simp add: td)
  with td m0 m1 show ?thesis unfolding s_def by blast
qed

lemma to_double_numeral:
  "(numeral k :: int) < 2 ^ 53 \<Longrightarrow> to_double (numeral k) = numeral k"
  using to_double_of_int [of "numeral k"] by simp

lemma to_double_0 [simp]: "to_double 0 = 0"
  by (simp add: to_double_def)

lemma to_double_1 [simp]: "to_double 1 = 1"
  using to_double_of_int [of 1] by simp

lemma round_half_even_numeral [simp]: "round_half_even (numeral k) = numeral k"
  using round_half_even_of_int [of "numeral k"] by simp

lemma round_half_even_0 [simp]: "round_half_even 0 = 0"
  using round_half_even_of_int [of 0] by simp

lemma round_half_even_1 [simp]: "round_half_even 1 = 1"
  using round_half_even_of_int [of 1] by simp

lemma not_overflows_small: "r < 2 ^ 53 \<Longrightarrow> \<not> overflows r"
proof -
  have "(2::rat) ^ 53 \<le> 2 ^ 1024" by (intro power_increasing) simp_all
  then show "r < 2 ^ 53 \<Longrightarrow> \<not> overflows r" by (simp add: overflows_def)
qed

lemma to_double_two_thirds: "to_double (2 / 3) = 6004799503160661 / 9007199254740992"
  by code_simp

lemma to_double_two_thirds_hundred:
  "to_double (150119987579016525 / 2251799813685248) = 2345624805922133 / 35184372088832"
  by code_simp

lemma round_two_thirds_hundred:
  "round_half_even (11728124029610665 / 17592186044416) = 667"
  by code_simp

lemma to_double_66_7: "to_double (667 / 10) = 4693595236650189 / 70368744177664"
  by code_simp

lemma not_overflows_66_7: "\<not> overflows (4693595236650189 / 70368744177664)"
  by (rule not_overflows_small) simp

lemma not_overflows_two_thirds: "\<not> overflows (6004799503160661 / 9007199254740992)"
  by (rule not_overflows_small) simp

lemma not_overflows_two_thirds_hundred: "\<not> overflows (2345624805922133 / 35184372088832)"
  by (rule not_overflows_small) simp

lemma win_percentage_two_of_three:
  "win_percentage_of 2 3 = Inr (PFloat (Finite False (to_double (667 / 10))))"
  by (simp add: win_percentage_of_def and_then_def py_int_truediv_def to_double_two_thirds
      to_double_two_thirds_hundred round_two_thirds_hundred to_double_66_7
      not_overflows_66_7 not_overflows_two_thirds not_overflows_two_thirds_hundred)

section \<open>The float operations\<close>

lemma py_int_truediv_error: "py_int_truediv a b = Inl e \<Longrightarrow> b \<noteq> 0 \<Longrightarrow> e = OverflowError"
  by (simp add: py_int_truediv_def Let_def split: if_splits)

lemma py_round_error: "py_round x ndigits = Inl e \<Longrightarrow> e = OverflowError"
  by (cases x) (simp_all add: Let_def split: if_splits)

lemma rounded_ratio_error: "rounded_ratio a b ndigits = Inl e \<Longrightarrow> b \<noteq> 0 \<Longrightarrow> e = OverflowError"
  by (auto simp: rounded_ratio_def and_then_def split: sum.splits
      dest: py_int_truediv_error py_round_error)

lemma win_percentage_of_error: "win_percentage_of w n = Inl e \<Longrightarrow> e = OverflowError"
  by (auto simp: win_percentage_of_def and_then_def split: sum.splits if_splits
      dest: py_int_truediv_error py_round_error)

lemma py_int_truediv_overflow:
  assumes "b \<noteq> 0" "2 ^ 1024 * \<bar>of_int b\<bar> \<le> (\<bar>of_int a\<bar> :: rat)"
  shows "py_int_truediv a b = Inl OverflowError"
proof -
  have "(0::rat) < \<bar>of_int b\<bar>" using assms(1) by simp
  then have "(2::rat) ^ 1024 \<le> \<bar>of_int a\<bar> / \<bar>of_int b\<bar>"
    using assms(2) by (simp add: pos_le_divide_eq)
  then have "overflows (to_double (\<bar>of_int a\<bar> / \<bar>of_int b\<bar>))"
    unfolding overflows_def by (rule to_double_overflow)
  then show ?thesis using assms(1) by (simp add: py_int_truediv_def)
qed

section \<open>What the aggregator returns\<close>

lemma and_then_Inr:
  "and_then m f = Inr y \<longleftrightarrow> (\<exists>v. m = Inr v \<and> f v = Inr y)"
  by (cases m) (simp_all add: and_then_def)

lemma and_then_Inl:
  "and_then m f = Inl e \<longleftrightarrow> m = Inl e \<or> (\<exists>v. m = Inr v \<and> f v = Inl e)"
  by (cases m) (simp_all add: and_then_def)

lemma count_wins_length: "count_wins games = int (length (filter is_win games))"
  by (induction games) (simp_all add: count_wins_def)

lemma calculate_analytics_Nil: "calculate_analytics [] = Inr (PDict [])"
  by (simp add: calculate_analytics_def)

lemma calculate_analytics_error:
  assumes "calculate_analytics games = Inl e"
  shows "e = OverflowError \<and> games \<noteq> []"
proof -
  from assms have ne: "games \<noteq> []" by (auto simp: calculate_analytics_def)
  then have n: "int (length games) \<noteq> 0" by simp
  from assms ne have "e = OverflowError"
    unfolding calculate_analytics_def Let_def
    by (auto simp: and_then_Inl dest: win_percentage_of_error rounded_ratio_error [OF _ n])
  with ne show ?thesis by simp
qed

lemma calculate_analytics_Inr:
  assumes "calculate_analytics games = Inr d" "games \<noteq> []"
  shows "\<exists>wp aps apa ary apy aty atg.
    win_percentage_of (count_wins games) (int (length games)) = Inr wp \<and>
    rounded_ratio (sum_list (map points_scored games)) (int (length games)) 1 = Inr aps \<and>
    rounded_ratio (sum_list (map points_allowed games)) (int (length games)) 1 = Inr apa \<and>
    rounded_ratio (sum_list (map rushing_yards games)) (int (length games)) 1 = Inr ary \<and>
    rounded_ratio (sum_list (map passing_yards games)) (int (length games)) 1 = Inr apy \<and>
    rounded_ratio (sum_list (map rushing_yards games) + sum_list (map passing_yards games))
      (int (length games)) 1 = Inr aty \<and>
    rounded_ratio (sum_list (map turnovers games)) (int (length games)) 2 = Inr atg \<and>
    d = PDict
      [(''summary'', PDict
         [(''total_games'', PInt (int (length games))),
          (''wins'', PInt (count_wins games)),
          (''losses'', PInt (int (length games) - count_wins games)),
          (''win_percentage'', wp)]),
       (''scoring'', PDict
         [(''total_points_scored'', PInt (sum_list (map points_scored games))),
          (''total_points_allowed'', PInt (sum_list (map points_allowed games))),
          (''avg_points_scored'', aps),
          (''avg_points_allowed'', apa),
          (''point_differential'',
             PInt (sum_list (map points_scored games) - sum_list (map points_allowed games)))]),
       (''offense'', PDict
         [(''total_rushing_yards'', PInt (sum_list (map rushing_yards games))),
          (''total_passing_yards'', PInt (sum_list (map passing_yards games))),
          (''total_yards'',
             PInt (sum_list (map rushing_yards games) + sum_list (map passing_yards games))),
          (''avg_rushing_yards'', ary),
          (''avg_passing_yards'', apy),
          (''avg_total_yards'', aty)]),
       (''turnovers'', PDict
         [(''total_turnovers'', PInt (sum_list (map turnovers games))),
          (''avg_turnovers_per_game'', atg)]),
       (''home_away'', PDict
         [(''home_record'',
             PStr (py_str (count_wins (filter (\<lambda>g. home_away g = Some ''home'') games)) @ ''-'' @
                   py_str (int (length (filter (\<lambda>g. home_away g = Some ''home'') games)) -
                           count_wins (filter (\<lambda>g. home_away g = Some ''home'') games)))),
          (''away_record'',
             PStr (py_str (count_wins (filter (\<lambda>g. home_away g = Some ''away'') games)) @ ''-'' @
                   py_str (int (length (filter (\<lambda>g. home_away g = Some ''away'') games)) -
                           count_wins (filter (\<lambda>g. home_away g = Some ''away'') games))))])]"
  using assms unfolding calculate_analytics_def Let_def
  by (simp add: and_then_Inr) blast

lemma py_round_moderate:
  assumes "0 \<le> m" "m \<le> 2 ^ 1001 + 1"
  shows "\<exists>r. py_round (Finite s m) ndigits = Inr (Finite s r)"
proof -
  define p :: rat where "p = 10 ^ ndigits"
  have p: "1 \<le> p" by (simp add: p_def)
  define y :: rat where "y = of_int (round_half_even (m * p)) / p"
  have "(of_int 0 :: rat) \<le> m * p" using assms(1) p by simp
  then have "0 \<le> round_half_even (m * p)" by (rule round_half_even_ge_int)
  then have y0: "0 \<le> y" using p by (simp add: y_def)
  have "of_int (round_half_even (m * p)) \<le> m * p + 1 / 2"
    by (rule round_half_even_bounds)
  then have "y \<le> (m * p + 1 / 2) / p"
    unfolding y_def using p by (intro divide_right_mono) simp_all
  also have "\<dots> = m + 1 / (2 * p)" using p by (simp add: field_simps)
  also have "\<dots> \<le> m + 1 / 2" using p by (simp add: field_simps)
  finally have "y \<le> m + 1 / 2" .
  with to_double_upper [OF y0] assms(2) have "to_double y \<le> 2 ^ 1002 + 4" by simp
  also have "\<dots> < (2::rat) ^ 1024" by simp
  finally have "\<not> overflows (to_double y)" by (simp add: overflows_def)
  then show ?thesis by (simp add: y_def p_def)
qed

lemma py_int_truediv_moderate:
  assumes "b \<noteq> 0" "(\<bar>of_int a\<bar> :: rat) \<le> 2 ^ 1000 * \<bar>of_int b\<bar>"
  shows "\<exists>r. py_int_truediv a b = Inr (Finite ((a < 0) \<noteq> (b < 0)) r) \<and> 0 \<le> r \<and> r \<le> 2 ^ 1001 + 1"
proof -
  define x :: rat where "x = \<bar>of_int a\<bar> / \<bar>of_int b\<bar>"
  have b: "(0::rat) < \<bar>of_int b\<bar>" using assms(1) by simp
  have x0: "0 \<le> x" by (simp add: x_def)
  have x1: "x \<le> 2 ^ 1000" unfolding x_def using assms(2) b by (simp add: pos_divide_le_eq)
  have r0: "0 \<le> to_double x" by (rule to_double_nonneg [OF x0])
  have r1: "to_double x \<le> 2 ^ 1001 + 1" using to_double_upper [OF x0] x1 by simp
  also have "\<dots> < (2::rat) ^ 1024" by simp
  finally have "\<not> overflows (to_double x)" by (simp add: overflows_def)
  then show ?thesis using assms(1) r0 r1 by (simp add: py_int_truediv_def x_def)
qed

lemma rounded_ratio_moderate:
  assumes "b \<noteq> 0" "(\<bar>of_int a\<bar> :: rat) \<le> 2 ^ 1000 * \<bar>of_int b\<bar>"
  shows "\<exists>v. rounded_ratio a b ndigits = Inr v"
proof -
  from py_int_truediv_moderate [OF assms] obtain r where
    q: "py_int_truediv a b = Inr (Finite ((a < 0) \<noteq> (b < 0)) r)" and r: "0 \<le> r" "r \<le> 2 ^ 1001 + 1"
    by blast
  from py_round_moderate [OF r] obtain r' where
    "py_round (Finite ((a < 0) \<noteq> (b < 0)) r) ndigits = Inr (Finite ((a < 0) \<noteq> (b < 0)) r')"
    by blast
  with q show ?thesis by (simp add: rounded_ratio_def and_then_def)
qed

lemma win_percentage_of_returns:
  assumes "0 \<le> w" "w \<le> n"
  shows "\<exists>v. win_percentage_of w n = Inr v"
proof (cases "0 < n")
  case False then show ?thesis by (simp add: win_percentage_of_def)
next
  case True
  define x :: rat where "x = \<bar>of_int w\<bar> / \<bar>of_int n\<bar>"
  have n: "(0::rat) < \<bar>of_int n\<bar>" using True by simp
  have x0: "0 \<le> x" by (simp add: x_def)
  have "(of_int w :: rat) \<le> of_int n" using assms(2) by (simp only: of_int_le_iff)
  then have x1: "x \<le> 1" unfolding x_def using assms(1) True by simp
  have r0: "0 \<le> to_double x" by (rule to_double_nonneg [OF x0])
  have r1: "to_double x \<le> 3" using to_double_upper [OF x0] x1 by simp
  also have "\<dots> < (2::rat) ^ 1024" by simp
  finally have nx: "\<not> overflows (to_double x)" by (simp add: overflows_def)
  have q: "py_int_truediv w n = Inr (Finite False (to_double x))"
    using True assms(1) nx by (simp add: py_int_truediv_def x_def)
  define z :: rat where "z = to_double x * 100"
  have z0: "0 \<le> z" using r0 by (simp add: z_def)
  have z1: "z \<le> 300" using r1 by (simp add: z_def)
  have m0: "0 \<le> to_double z" by (rule to_double_nonneg [OF z0])
  have m1: "to_double z \<le> 601" using to_double_upper [OF z0] z1 by simp
  also have "\<dots> < (2::rat) ^ 1024" by simp
  finally have nz: "\<not> overflows (to_double z)" by (simp add: overflows_def)
  have m: "py_float_mul (Finite False (to_double x)) (Finite False 100) = Finite False (to_double z)"
    using nz by (simp add: z_def)
  have "to_double z \<le> 2 ^ 1001 + 1" using m1 by (rule order_trans) simp
  from py_round_moderate [OF m0 this] obtain r where
    "py_round (Finite False (to_double z)) 1 = Inr (Finite False r)" by blast
  with q m True show ?thesis by (simp add: win_percentage_of_def and_then_def)
qed

lemma sum_list_moderate:
  assumes "\<And>g. g \<in> set games \<Longrightarrow> \<bar>f g\<bar> \<le> (c::int)"
  shows "\<bar>sum_list (map f games)\<bar> \<le> int (length games) * c"
  using assms
proof (induction games)
  case Nil then show ?case by simp
next
  case (Cons g games)
  have "\<bar>f g\<bar> \<le> c" by (rule Cons.prems) simp
  moreover have "\<bar>sum_list (map f games)\<bar> \<le> int (length games) * c"
    by (rule Cons.IH) (simp add: Cons.prems)
  ultimately show ?case by (simp add: algebra_simps)
qed

lemma ratio_bound:
  assumes "\<bar>a\<bar> \<le> n * 2 ^ k" "0 \<le> n"
  shows "(\<bar>of_int a\<bar> :: rat) \<le> 2 ^ k * \<bar>of_int n\<bar>"
proof -
  have "(of_int \<bar>a\<bar> :: rat) \<le> of_int (n * 2 ^ k)" using assms(1) by (simp only: of_int_le_iff)
  then show ?thesis using assms(2) by (simp add: mult.commute)
qed

lemma calculate_analytics_moderate:
  assumes "games \<noteq> []" "list_all moderate games"
  shows "\<exists>d. calculate_analytics games = Inr d"
proof -
  let ?n = "int (length games)"
  have n: "?n \<noteq> 0" "0 \<le> ?n" using assms(1) by simp_all
  have m: "\<And>g. g \<in> set games \<Longrightarrow> moderate g" using assms(2) by (simp add: list_all_iff)
  have w: "0 \<le> count_wins games" "count_wins games \<le> ?n"
    by (simp_all add: count_wins_length)
  have b1: "\<bar>sum_list (map points_scored games)\<bar> \<le> ?n * 2 ^ 999"
    by (rule sum_list_moderate) (use m in \<open>simp add: moderate_def\<close>)
  have b2: "\<bar>sum_list (map points_allowed games)\<bar> \<le> ?n * 2 ^ 999"
    by (rule sum_list_moderate) (use m in \<open>simp add: moderate_def\<close>)
  have b3: "\<bar>sum_list (map rushing_yards games)\<bar> \<le> ?n * 2 ^ 999"
    by (rule sum_list_moderate) (use m in \<open>simp add: moderate_def\<close>)
  have b4: "\<bar>sum_list (map passing_yards games)\<bar> \<le> ?n * 2 ^ 999"
    by (rule sum_list_moderate) (use m in \<open>simp add: moderate_def\<close>)
  have b5: "\<bar>sum_list (map turnovers games)\<bar> \<le> ?n * 2 ^ 999"
    by (rule sum_list_moderate) (use m in \<open>simp add: moderate_def\<close>)
  have w99: "\<And>a. \<bar>a\<bar> \<le> ?n * 2 ^ 999 \<Longrightarrow> \<bar>a\<bar> \<le> ?n * 2 ^ 1000"
  proof -
    fix a :: int assume "\<bar>a\<bar> \<le> ?n * 2 ^ 999"
    moreover have "?n * 2 ^ 999 \<le> ?n * 2 ^ 1000" by (intro mult_left_mono) simp_all
    ultimately show "\<bar>a\<bar> \<le> ?n * 2 ^ 1000" by (rule order_trans)
  qed
  have b6: "\<bar>sum_list (map rushing_yards games) + sum_list (map passing_yards games)\<bar> \<le> ?n * 2 ^ 1000"
  proof -
    have "?n * (2::int) ^ 1000 = ?n * 2 ^ 999 + ?n * 2 ^ 999" by simp
    with b3 b4 show ?thesis by linarith
  qed
  obtain wp where 0: "win_percentage_of (count_wins games) ?n = Inr wp"
    using win_percentage_of_returns [OF w] by blast
  obtain v1 where 1: "rounded_ratio (sum_list (map points_scored games)) ?n 1 = Inr v1"
    using rounded_ratio_moderate [OF n(1) ratio_bound [OF w99 [OF b1] n(2)]] by blast
  obtain v2 where 2: "rounded_ratio (sum_list (map points_allowed games)) ?n 1 = Inr v2"
    using rounded_ratio_moderate [OF n(1) ratio_bound [OF w99 [OF b2] n(2)]] by blast
  obtain v3 where 3: "rounded_ratio (sum_list (map rushing_yards games)) ?n 1 = Inr v3"
    using rounded_ratio_moderate [OF n(1) ratio_bound [OF w99 [OF b3] n(2)]] by blast
  obtain v4 where 4: "rounded_ratio (sum_list (map passing_yards games)) ?n 1 = Inr v4"
    using rounded_ratio_moderate [OF n(1) ratio_bound [OF w99 [OF b4] n(2)]] by blast
  obtain v5 where 5: "rounded_ratio (sum_list (map rushing_yards games) + sum_list (map passing_yards games)) ?n 1 = Inr v5"
    using rounded_ratio_moderate [OF n(1) ratio_bound [OF b6 n(2)]] by blast
  obtain v6 where 6: "rounded_ratio (sum_list (map turnovers games)) ?n 2 = Inr v6"
    using rounded_ratio_moderate [OF n(1) ratio_bound [OF w99 [OF b5] n(2)]] by blast
  show ?thesis
    using assms(1) 0 1 2 3 4 5 6 unfolding calculate_analytics_def Let_def
    by (simp add: and_then_def)
qed

section \<open>Evaluating the aggregator on the samples\<close>

lemma str_nat_digit: "n < 10 \<Longrightarrow> str_nat n = [digit_char n]"
  by (simp add: str_nat.simps)

lemma overflows_to_double: "2 ^ 1024 \<le> a \<Longrightarrow> overflows (to_double a)"
  unfolding overflows_def by (rule to_double_overflow)

lemmas evaluate_floats =
  and_then_def rounded_ratio_def win_percentage_of_def py_int_truediv_def
  to_double_numeral not_overflows_small overflows_to_double
  to_double_two_thirds to_double_two_thirds_hundred round_two_thirds_hundred to_double_66_7

lemmas evaluate_report =
  calculate_analytics_def count_wins_def is_win_def py_str_def str_nat_digit digit_char_def

lemma calculate_analytics_season:
  "calculate_analytics season = Inr (PDict
     [(''summary'', PDict
        [(''total_games'', PInt 3), (''wins'', PInt 2), (''losses'', PInt 1),
         (''win_percentage'', PFloat (Finite False (4693595236650189 / 70368744177664)))]),
      (''scoring'', PDict
        [(''total_points_scored'', PInt 60), (''total_points_allowed'', PInt 90),
         (''avg_points_scored'', PFloat (Finite False 20)),
         (''avg_points_allowed'', PFloat (Finite False 30)),
         (''point_differential'', PInt (- 30))]),
      (''offense'', PDict
        [(''total_rushing_yards'', PInt 300), (''total_passing_yards'', PInt 600),
         (''total_yards'', PInt 900),
         (''avg_rushing_yards'', PFloat (Finite False 100)),
         (''avg_passing_yards'', PFloat (Finite False 200)),
         (''avg_total_yards'', PFloat (Finite False 300))]),
      (''turnovers'', PDict
        [(''total_turnovers'', PInt 3),
         (''avg_turnovers_per_game'', PFloat (Finite False 1))]),
      (''home_away'', PDict
        [(''home_record'', PStr ''1-0''), (''away_record'', PStr ''0-1'')])])"
  by (simp add: season_def home_win_def away_loss_def neutral_win_def
      evaluate_report evaluate_floats)

lemma count_wins_filter:
  "count_wins (filter P games) = int (length (filter (\<lambda>g. P g \<and> result g = Some ''W'') games))"
  by (simp add: count_wins_length is_win_def [abs_def])

lemma calculate_analytics_three_at_home:
  "calculate_analytics three_at_home = Inr (PDict
     [(''summary'', PDict
        [(''total_games'', PInt 3), (''wins'', PInt 2), (''losses'', PInt 1),
         (''win_percentage'', PFloat (Finite False (4693595236650189 / 70368744177664)))]),
      (''scoring'', PDict
        [(''total_points_scored'', PInt 75), (''total_points_allowed'', PInt 75),
         (''avg_points_scored'', PFloat (Finite False 25)),
         (''avg_points_allowed'', PFloat (Finite False 25)),
         (''point_differential'', PInt 0)]),
      (''offense'', PDict
        [(''total_rushing_yards'', PInt 300), (''total_passing_yards'', PInt 600),
         (''total_yards'', PInt 900),
         (''avg_rushing_yards'', PFloat (Finite False 100)),
         (''avg_passing_yards'', PFloat (Finite False 200)),
         (''avg_total_yards'', PFloat (Finite False 300))]),
      (''turnovers'', PDict
        [(''total_turnovers'', PInt 3),
         (''avg_turnovers_per_game'', PFloat (Finite False 1))]),
      (''home_away'', PDict
        [(''home_record'', PStr ''2-1''), (''away_record'', PStr ''0-0'')])])"
  by (simp add: three_at_home_def home_win_def home_loss_def evaluate_report evaluate_floats)

lemma moderate_season: "list_all moderate season"
  by (simp add: season_def moderate_def home_win_def away_loss_def neutral_win_def)

lemma length_filter_split:
  "int (length (filter P xs)) + int (length (filter (\<lambda>x. \<not> P x) xs)) = int (length xs)"
  using sum_length_filter_compl [of P xs] by simp

lemma win_percentage_of_Inr:
  assumes "win_percentage_of w n = Inr v" "0 < n"
  shows "\<exists>q r. py_int_truediv w n = Inr q \<and> py_round (py_float_mul q (Finite False 100)) 1 = Inr r \<and>
    v = PFloat r"
  using assms by (auto simp: win_percentage_of_def and_then_Inr)

lemma rounded_ratio_Inr:
  assumes "rounded_ratio a b ndigits = Inr v"
  shows "\<exists>q r. py_int_truediv a b = Inr q \<and> py_round q ndigits = Inr r \<and> v = PFloat r"
  using assms by (auto simp: rounded_ratio_def and_then_Inr)

section \<open>When an average is beyond the largest float\<close>

lemma round_half_even_ge_even:
  assumes "even n"
  shows "n \<le> round_half_even y \<longleftrightarrow> of_int n - 1 / 2 \<le> y"
proof
  assume le: "n \<le> round_half_even y"
  show "of_int n - 1 / 2 \<le> y"
  proof (rule ccontr)
    assume "\<not> of_int n - 1 / 2 \<le> y"
    then have y: "y < of_int n - 1 / 2" by simp
    then have "y < of_int n" by linarith
    then have f: "\<lfloor>y\<rfloor> < n" by (simp add: floor_less_iff)
    show False
    proof (cases "\<lfloor>y\<rfloor> = n - 1")
      case True
      then have "y - of_int \<lfloor>y\<rfloor> < 1 / 2" using y by simp
      then have "round_half_even y = \<lfloor>y\<rfloor>" by (simp add: round_half_even_def Let_def)
      with True le show False by simp
    next
      case False
      with f have "\<lfloor>y\<rfloor> + 1 < n" by simp
      moreover have "round_half_even y \<le> \<lfloor>y\<rfloor> + 1"
        by (simp add: round_half_even_def Let_def)
      ultimately show False using le by simp
    qed
  qed
next
  assume ge: "of_int n - 1 / 2 \<le> y"
  show "n \<le> round_half_even y"
  proof (cases "of_int n \<le> y")
    case True
    then show ?thesis by (rule round_half_even_ge_int)
  next
    case False
    then have lt: "y < of_int n" by simp
    have "of_int (n - 1) \<le> y" using ge by simp
    then have "n - 1 \<le> \<lfloor>y\<rfloor>" by (simp only: le_floor_iff)
    moreover have "\<lfloor>y\<rfloor> < n" using lt by (simp add: floor_less_iff)
    ultimately have f: "\<lfloor>y\<rfloor> = n - 1" by simp
    then have odd: "odd \<lfloor>y\<rfloor>" using assms by simp
    have d: "1 / 2 \<le> y - of_int \<lfloor>y\<rfloor>" using ge f by simp
    have "round_half_even y = \<lfloor>y\<rfloor> + 1"
      using d odd by (auto simp: round_half_even_def Let_def)
    with f show ?thesis by simp
  qed
qed


lemma to_double_below_half:
  assumes "0 \<le> x" "x < 2 ^ 1023"
  shows "to_double x \<le> 2 ^ 1023"
proof (cases "x = 0")
  case True then show ?thesis by simp
next
  case False
  with assms have pos: "0 < x" by simp
  define q where "q = max (ilog2 x - 52) (- 1074)"
  from to_double_nearest [OF pos] obtain m where
    m: "to_double x = of_int m * 2 powi q" "m \<le> 2 ^ 53" unfolding q_def by blast
  have "x < 2 powi 1023" using assms(2) by simp
  then have "ilog2 x < 1023" by (rule ilog2_less [OF pos])
  then have q: "q \<le> 970" by (simp add: q_def)
  have "(of_int m :: rat) \<le> of_int (2 ^ 53)" using m(2) by (simp only: of_int_le_iff)
  then have "(of_int m :: rat) \<le> 2 ^ 53" by simp
  then have "of_int m * (2::rat) powi q \<le> 2 ^ 53 * 2 powi q"
    by (intro mult_right_mono) simp_all
  also have "(2::rat) powi q \<le> 2 powi 970" using q by (intro power_int_increasing) simp_all
  then have "(2::rat) ^ 53 * 2 powi q \<le> 2 ^ 53 * 2 powi 970" by (intro mult_left_mono) simp_all
  also have "(2::rat) ^ 53 * 2 powi 970 = 2 ^ 1023"
    using pow2_split [of 53 970] by simp
  finally show ?thesis by (simp add: m(1))
qed

lemma to_double_top_binade:
  assumes "2 ^ 1023 \<le> x" "x < 2 ^ 1024"
  shows "to_double x = of_int (round_half_even (x / 2 ^ 971)) * 2 ^ 971"
proof -
  have pos: "0 < x" using assms(1) by (rule less_le_trans [rotated]) simp
  have "(2::rat) powi 1023 \<le> x" using assms(1) by simp
  then have "1023 \<le> ilog2 x" by (rule ilog2_ge [OF pos])
  moreover have "x < 2 powi 1024" using assms(2) by simp
  then have "ilog2 x < 1024" by (rule ilog2_less [OF pos])
  ultimately have "ilog2 x = 1023" by simp
  then show ?thesis using pos by (simp add: to_double_def Let_def)
qed

text \<open>The division overflows exactly from \<open>2 ^ 1024 - 2 ^ 970\<close> on.\<close>

lemma overflows_to_double_iff:
  assumes "0 \<le> x"
  shows "overflows (to_double x) \<longleftrightarrow> 2 ^ 1024 - 2 ^ 970 \<le> x"
proof -
  consider "x < 2 ^ 1023" | "2 ^ 1023 \<le> x" "x < 2 ^ 1024" | "2 ^ 1024 \<le> x" by linarith
  then show ?thesis
  proof cases
    case 1
    have "to_double x \<le> 2 ^ 1023" by (rule to_double_below_half [OF assms 1])
    also have "\<dots> < (2::rat) ^ 1024" by simp
    finally have "\<not> overflows (to_double x)" by (simp add: overflows_def)
    moreover have "(2::rat) ^ 1023 \<le> 2 ^ 1024 - 2 ^ 970" by simp
    then have "\<not> 2 ^ 1024 - 2 ^ 970 \<le> x" using 1 by linarith
    ultimately show ?thesis by simp
  next
    case 2
    have e: "even (2 ^ 53 :: int)" by simp
    have "overflows (to_double x) \<longleftrightarrow>
        (of_int (2 ^ 53) :: rat) * 2 ^ 971 \<le> of_int (round_half_even (x / 2 ^ 971)) * 2 ^ 971"
      by (simp add: overflows_def to_double_top_binade [OF 2])
    also have "\<dots> \<longleftrightarrow> (of_int (2 ^ 53) :: rat) \<le> of_int (round_half_even (x / 2 ^ 971))"
      by (rule mult_le_cancel_right_pos) simp
    also have "\<dots> \<longleftrightarrow> 2 ^ 53 \<le> round_half_even (x / 2 ^ 971)"
      by (simp only: of_int_le_iff)
    also have "\<dots> \<longleftrightarrow> of_int (2 ^ 53) - 1 / 2 \<le> x / 2 ^ 971"
      by (rule round_half_even_ge_even [OF e])
    also have "\<dots> \<longleftrightarrow> (of_int (2 ^ 53) - 1 / 2) * 2 ^ 971 \<le> x"
      by (simp add: pos_le_divide_eq)
    also have "(of_int (2 ^ 53) - 1 / 2) * 2 ^ 971 = (2::rat) ^ 1024 - 2 ^ 970"
      by simp
    finally show ?thesis .
  next
    case 3
    then have "overflows (to_double x)" unfolding overflows_def by (rule to_double_overflow)
    moreover have "(2::rat) ^ 1024 - 2 ^ 970 \<le> x" using 3 by (rule order_trans [rotated]) simp
    ultimately show ?thesis by simp
  qed
qed


text \<open>Rounding a float to decimal places never overflows.\<close>

lemma py_round_of_float:
  assumes "0 \<le> x" "\<not> overflows (to_double x)"
  shows "\<exists>r. py_round (Finite s (to_double x)) ndigits = Inr (Finite s r)"
proof -
  define m where "m = to_double x"
  define p :: rat where "p = 10 ^ ndigits"
  define y :: rat where "y = of_int (round_half_even (m * p)) / p"
  have p: "1 \<le> p" by (simp add: p_def)
  have m0: "0 \<le> m" unfolding m_def by (rule to_double_nonneg [OF assms(1)])
  have "(of_int 0 :: rat) \<le> m * p" using m0 p by simp
  then have "0 \<le> round_half_even (m * p)" by (rule round_half_even_ge_int)
  then have y0: "0 \<le> y" using p by (simp add: y_def)
  have x: "x < 2 ^ 1024 - 2 ^ 970"
    using assms(2) by (simp add: overflows_to_double_iff [OF assms(1)])
  have "y < 2 ^ 1024 - 2 ^ 970"
  proof (cases "x < 2 ^ 1023")
    case True
    have "of_int (round_half_even (m * p)) \<le> m * p + 1 / 2" by (rule round_half_even_bounds)
    then have "y \<le> (m * p + 1 / 2) / p"
      unfolding y_def using p by (intro divide_right_mono) simp_all
    also have "\<dots> = m + 1 / (2 * p)" using p by (simp add: field_simps)
    also have "\<dots> \<le> m + 1 / 2" using p by (simp add: field_simps)
    also have "m \<le> 2 ^ 1023" unfolding m_def by (rule to_double_below_half [OF assms(1) True])
    finally have "y \<le> 2 ^ 1023 + 1 / 2" by simp
    also have "\<dots> < (2::rat) ^ 1024 - 2 ^ 970" by simp
    finally show ?thesis .
  next
    case False
    then have b: "2 ^ 1023 \<le> x" "x < 2 ^ 1024" using x by simp_all
    define k where "k = round_half_even (x / 2 ^ 971)"
    have mk: "m = of_int k * 2 ^ 971" unfolding m_def k_def by (rule to_double_top_binade [OF b])
    have "m * p = of_int (k * 2 ^ 971 * 10 ^ ndigits)" by (simp add: mk p_def)
    then have "round_half_even (m * p) = k * 2 ^ 971 * 10 ^ ndigits"
      by (simp only: round_half_even_of_int)
    then have ym: "y = m" by (simp add: y_def mk p_def)
    have "\<not> 2 ^ 53 \<le> k"
    proof
      assume "2 ^ 53 \<le> k"
      then have "(of_int (2 ^ 53) :: rat) \<le> of_int k" by (simp only: of_int_le_iff)
      then have "(of_int (2 ^ 53) :: rat) * 2 ^ 971 \<le> of_int k * 2 ^ 971"
        by (intro mult_right_mono) simp_all
      then have "overflows m" by (simp add: overflows_def mk)
      with assms(2) show False by (simp add: m_def)
    qed
    then have "k \<le> 2 ^ 53 - 1" by simp
    then have "(of_int k :: rat) \<le> of_int (2 ^ 53 - 1)" by (simp only: of_int_le_iff)
    then have "(of_int k :: rat) * 2 ^ 971 \<le> of_int (2 ^ 53 - 1) * 2 ^ 971"
      by (intro mult_right_mono) simp_all
    also have "(of_int (2 ^ 53 - 1) :: rat) * 2 ^ 971 < 2 ^ 1024 - 2 ^ 970" by simp
    finally show ?thesis by (simp add: ym mk)
  qed
  then have "\<not> overflows (to_double y)" by (simp add: overflows_to_double_iff [OF y0])
  then show ?thesis by (simp add: y_def p_def m_def)
qed

lemma beyond_float_rat:
  assumes "0 < n"
  shows "beyond_float a n \<longleftrightarrow> (2::rat) ^ 1024 - 2 ^ 970 \<le> \<bar>of_int a\<bar> / \<bar>of_int n\<bar>"
proof -
  have "beyond_float a n \<longleftrightarrow> (of_int ((2 ^ 1024 - 2 ^ 970) * n) :: rat) \<le> of_int \<bar>a\<bar>"
    by (simp only: beyond_float_def float_limit_def of_int_le_iff)
  also have "\<dots> \<longleftrightarrow> ((2::rat) ^ 1024 - 2 ^ 970) * of_int n \<le> \<bar>of_int a\<bar>" by simp
  also have "\<dots> \<longleftrightarrow> (2::rat) ^ 1024 - 2 ^ 970 \<le> \<bar>of_int a\<bar> / \<bar>of_int n\<bar>"
    using assms by (simp add: pos_le_divide_eq)
  finally show ?thesis .
qed

lemma py_int_truediv_beyond:
  assumes "0 < n" "beyond_float a n"
  shows "py_int_truediv a n = Inl OverflowError"
proof -
  define x :: rat where "x = \<bar>of_int a\<bar> / \<bar>of_int n\<bar>"
  have x0: "0 \<le> x" by (simp add: x_def)
  have "beyond_float a n \<longleftrightarrow> 2 ^ 1024 - 2 ^ 970 \<le> x"
    unfolding x_def by (rule beyond_float_rat [OF assms(1)])
  with assms(2) have "overflows (to_double x)"
    using overflows_to_double_iff [OF x0] by blast
  then have "overflows (to_double (\<bar>of_int a\<bar> / \<bar>of_int n\<bar>))" by (simp only: x_def)
  then show ?thesis using assms(1) by (simp add: py_int_truediv_def del: of_int_abs)
qed

lemma rounded_ratio_beyond:
  "0 < n \<Longrightarrow> beyond_float a n \<Longrightarrow> rounded_ratio a n ndigits = Inl OverflowError"
  by (simp add: rounded_ratio_def and_then_def py_int_truediv_beyond)

lemma rounded_ratio_within:
  assumes "0 < n" "\<not> beyond_float a n"
  shows "\<exists>v. rounded_ratio a n ndigits = Inr v"
proof -
  define x :: rat where "x = \<bar>of_int a\<bar> / \<bar>of_int n\<bar>"
  have x0: "0 \<le> x" by (simp add: x_def)
  have "beyond_float a n \<longleftrightarrow> 2 ^ 1024 - 2 ^ 970 \<le> x"
    unfolding x_def by (rule beyond_float_rat [OF assms(1)])
  with assms(2) have nx: "\<not> overflows (to_double x)"
    using overflows_to_double_iff [OF x0] by blast
  have "py_int_truediv a n =
      (let r = to_double x in if overflows r then Inl OverflowError
       else Inr (Finite ((a < 0) \<noteq> (n < 0)) r))"
    using assms(1) unfolding x_def py_int_truediv_def by simp
  with nx have q: "py_int_truediv a n = Inr (Finite ((a < 0) \<noteq> (n < 0)) (to_double x))"
    by (simp add: Let_def)
  from py_round_of_float [OF x0 nx] obtain r where
    "py_round (Finite ((a < 0) \<noteq> (n < 0)) (to_double x)) ndigits = Inr (Finite ((a < 0) \<noteq> (n < 0)) r)"
    by blast
  with q show ?thesis by (simp add: rounded_ratio_def and_then_def)
qed

text \<open>The aggregator raises exactly when an average is beyond the largest float.\<close>

lemma calculate_analytics_overflows:
  assumes "games \<noteq> []" "average_overflows games"
  shows "calculate_analytics games = Inl OverflowError"
proof -
  let ?n = "int (length games)"
  have n: "0 < ?n" using assms(1) by simp
  have w: "0 \<le> count_wins games" "count_wins games \<le> ?n" by (simp_all add: count_wins_length)
  obtain wp where wp: "win_percentage_of (count_wins games) ?n = Inr wp"
    using win_percentage_of_returns [OF w] by blast
  have r: "rounded_ratio a ?n k = Inl OverflowError \<or> (\<exists>v. rounded_ratio a ?n k = Inr v)" for a k
    using rounded_ratio_beyond [OF n] rounded_ratio_within [OF n] by blast
  from assms(2) consider
      "beyond_float (sum_list (map points_scored games)) ?n"
    | "beyond_float (sum_list (map points_allowed games)) ?n"
    | "beyond_float (sum_list (map rushing_yards games)) ?n"
    | "beyond_float (sum_list (map passing_yards games)) ?n"
    | "beyond_float (sum_list (map rushing_yards games) + sum_list (map passing_yards games)) ?n"
    | "beyond_float (sum_list (map turnovers games)) ?n"
    by (auto simp: average_overflows_def)
  then have "\<exists>e. calculate_analytics games = Inl e"
  proof cases
    case 1
    then show ?thesis using assms(1) wp
      by (simp add: calculate_analytics_def Let_def and_then_def rounded_ratio_beyond [OF n])
  next
    case 2
    from rounded_ratio_beyond [OF n 2] show ?thesis using assms(1) wp
      by (auto simp: calculate_analytics_def Let_def and_then_def split: sum.splits)
  next
    case 3
    from rounded_ratio_beyond [OF n 3] show ?thesis using assms(1) wp
      by (auto simp: calculate_analytics_def Let_def and_then_def split: sum.splits)
  next
    case 4
    from rounded_ratio_beyond [OF n 4] show ?thesis using assms(1) wp
      by (auto simp: calculate_analytics_def Let_def and_then_def split: sum.splits)
  next
    case 5
    from rounded_ratio_beyond [OF n 5] show ?thesis using assms(1) wp
      by (auto simp: calculate_analytics_def Let_def and_then_def split: sum.splits)
  next
    case 6
    from rounded_ratio_beyond [OF n 6] show ?thesis using assms(1) wp
      by (auto simp: calculate_analytics_def Let_def and_then_def split: sum.splits)
  qed
  then show ?thesis using calculate_analytics_error by blast
qed

lemma calculate_analytics_within:
  assumes "games \<noteq> []" "\<not> average_overflows games"
  shows "\<exists>d. calculate_analytics games = Inr d"
proof -
  let ?n = "int (length games)"
  have n: "0 < ?n" using assms(1) by simp
  have w: "0 \<le> count_wins games" "count_wins games \<le> ?n" by (simp_all add: count_wins_length)
  from assms(2) have b:
    "\<not> beyond_float (sum_list (map points_scored games)) ?n"
    "\<not> beyond_float (sum_list (map points_allowed games)) ?n"
    "\<not> beyond_float (sum_list (map rushing_yards games)) ?n"
    "\<not> beyond_float (sum_list (map passing_yards games)) ?n"
    "\<not> beyond_float (sum_list (map rushing_yards games) + sum_list (map passing_yards games)) ?n"
    "\<not> beyond_float (sum_list (map turnovers games)) ?n"
    by (simp_all add: average_overflows_def)
  obtain wp where 0: "win_percentage_of (count_wins games) ?n = Inr wp"
    using win_percentage_of_returns [OF w] by blast
  obtain v1 where 1: "rounded_ratio (sum_list (map points_scored games)) ?n 1 = Inr v1"
    using rounded_ratio_within [OF n b(1)] by blast
  obtain v2 where 2: "rounded_ratio (sum_list (map points_allowed games)) ?n 1 = Inr v2"
    using rounded_ratio_within [OF n b(2)] by blast
  obtain v3 where 3: "rounded_ratio (sum_list (map rushing_yards games)) ?n 1 = Inr v3"
    using rounded_ratio_within [OF n b(3)] by blast
  obtain v4 where 4: "rounded_ratio (sum_list (map passing_yards games)) ?n 1 = Inr v4"
    using rounded_ratio_within [OF n b(4)] by blast
  obtain v5 where 5: "rounded_ratio (sum_list (map rushing_yards games) + sum_list (map passing_yards games)) ?n 1 = Inr v5"
    using rounded_ratio_within [OF n b(5)] by blast
  obtain v6 where 6: "rounded_ratio (sum_list (map turnovers games)) ?n 2 = Inr v6"
    using rounded_ratio_within [OF n b(6)] by blast
  show ?thesis
    using assms(1) 0 1 2 3 4 5 6 unfolding calculate_analytics_def Let_def
    by (simp add: and_then_def)
qed


text \<open>The samples: which of them have an average beyond the largest float.\<close>

lemma season_within: "\<not> average_overflows season"
  by (simp add: average_overflows_def beyond_float_def float_limit_def season_def
      home_win_def away_loss_def neutral_win_def)

lemma three_at_home_within: "\<not> average_overflows [home_win, home_loss, home_win]"
  by (simp add: average_overflows_def beyond_float_def float_limit_def
      home_win_def home_loss_def)

lemma huge_points_scored_beyond: "average_overflows [huge_points_scored]"
  by (simp add: average_overflows_def beyond_float_def float_limit_def
      huge_points_scored_def home_win_def)

lemma huge_points_allowed_beyond: "average_overflows [huge_points_allowed]"
  by (simp add: average_overflows_def beyond_float_def float_limit_def
      huge_points_allowed_def home_win_def)

lemma huge_rushing_yards_beyond: "average_overflows [huge_rushing_yards]"
  by (simp add: average_overflows_def beyond_float_def float_limit_def
      huge_rushing_yards_def home_win_def)

lemma huge_turnovers_beyond: "average_overflows [huge_turnovers]"
  by (simp add: average_overflows_def beyond_float_def float_limit_def
      huge_turnovers_def home_win_def)

section \<open>The claims about the aggregator\<close>

text \<open>
  C1, as the code has it. On a non-empty list of records \<open>calculate_analytics\<close> raises
  OverflowError exactly when one of the six totals it averages (points scored, points
  allowed, rushing yards, passing yards, total yards, turnovers) divided by the number
  of records is beyond the largest float, that is, when the total is at least
  \<open>2 ^ 1024 - 2 ^ 970\<close> times the number of records in absolute value. Otherwise it
  returns a report whose summary has \<open>total_games\<close> the length of the list, \<open>wins\<close> the number of
  records whose result is exactly \<open>W\<close>, and \<open>losses\<close> the number of all other
  records, which is \<open>total_games - wins\<close>; so \<open>wins + losses = total_games\<close>.
\<close>

theorem C1_summary_counts:
  assumes "games \<noteq> []"
  shows "(average_overflows games \<longrightarrow> calculate_analytics games = Inl OverflowError) \<and>
    (\<not> average_overflows games \<longrightarrow>
    (\<exists>d w l. calculate_analytics games = Inr d \<and>
       getitem2 d ''summary'' ''total_games'' = Some (PInt (int (length games))) \<and>
       getitem2 d ''summary'' ''wins'' = Some (PInt w) \<and>
       getitem2 d ''summary'' ''losses'' = Some (PInt l) \<and>
       w = int (length (filter (\<lambda>g. result g = Some ''W'') games)) \<and>
       l = int (length (filter (\<lambda>g. result g \<noteq> Some ''W'') games)) \<and>
       l = int (length games) - w \<and>
       w + l = int (length games)))"
    (is "_ \<and> (_ \<longrightarrow> ?report)")
proof -
  have either: "calculate_analytics games = Inl OverflowError \<or> ?report"
  proof (cases "calculate_analytics games")
  case (Inl e)
  then show ?thesis using calculate_analytics_error [of games e] by simp
next
  case (Inr d)
  from calculate_analytics_Inr [OF Inr assms] obtain wp where
    "\<exists>aps apa ary apy aty atg. d = PDict
      [(''summary'', PDict
         [(''total_games'', PInt (int (length games))),
          (''wins'', PInt (count_wins games)),
          (''losses'', PInt (int (length games) - count_wins games)),
          (''win_percentage'', wp)]),
       (''scoring'', aps), (''offense'', apa), (''turnovers'', ary), (''home_away'', apy)]"
    by blast
  then have
    "getitem2 d ''summary'' ''total_games'' = Some (PInt (int (length games)))"
    "getitem2 d ''summary'' ''wins'' = Some (PInt (count_wins games))"
    "getitem2 d ''summary'' ''losses'' = Some (PInt (int (length games) - count_wins games))"
    by (auto simp: getitem2_def)
  moreover have "count_wins games = int (length (filter (\<lambda>g. result g = Some ''W'') games))"
    by (simp add: count_wins_length is_win_def [abs_def])
  moreover have "int (length games) - count_wins games =
      int (length (filter (\<lambda>g. result g \<noteq> Some ''W'') games))"
    using length_filter_split [of "\<lambda>g. result g = Some ''W''" games]
    by (simp add: count_wins_length is_win_def [abs_def])
  ultimately show ?thesis using Inr by auto
  qed
  show ?thesis
  proof (intro conjI impI)
    assume "average_overflows games"
    with assms show "calculate_analytics games = Inl OverflowError"
      by (rule calculate_analytics_overflows)
  next
    assume "\<not> average_overflows games"
    with assms have "\<exists>d. calculate_analytics games = Inr d"
      by (rule calculate_analytics_within)
    then have returns: "calculate_analytics games \<noteq> Inl OverflowError" by auto
    from either show ?report
    proof
      assume "calculate_analytics games = Inl OverflowError"
      with returns show ?report by simp
    next
      assume ?report
      then show ?report .
    qed
  qed
qed

text \<open>
  C1 at the sample season, three records, two of them won, and at a record with
  \<open>2 ^ 1024\<close> points scored.
\<close>

theorem C1_summary_counts_witness:
  "season \<noteq> [] \<and> \<not> average_overflows season \<and>
   (\<exists>d. calculate_analytics season = Inr d \<and>
      getitem2 d ''summary'' ''total_games'' = Some (PInt 3) \<and>
      getitem2 d ''summary'' ''wins'' = Some (PInt 2) \<and>
      getitem2 d ''summary'' ''losses'' = Some (PInt 1)) \<and>
   [huge_points_scored] \<noteq> [] \<and> average_overflows [huge_points_scored] \<and>
   calculate_analytics [huge_points_scored] = Inl OverflowError"
proof -
  have ne: "season \<noteq> []" by (simp add: season_def)
  have w: "int (length (filter (\<lambda>g. result g = Some ''W'') season)) = 2"
    by (simp add: season_def home_win_def away_loss_def neutral_win_def)
  have l: "int (length (filter (\<lambda>g. result g \<noteq> Some ''W'') season)) = 1"
    by (simp add: season_def home_win_def away_loss_def neutral_win_def)
  have n: "int (length season) = 3" by (simp add: season_def)
  from C1_summary_counts [OF ne] season_within
  have 1: "\<exists>d. calculate_analytics season = Inr d \<and>
      getitem2 d ''summary'' ''total_games'' = Some (PInt 3) \<and>
      getitem2 d ''summary'' ''wins'' = Some (PInt 2) \<and>
      getitem2 d ''summary'' ''losses'' = Some (PInt 1)"
    unfolding w l n by (auto simp: calculate_analytics_season)
  from C1_summary_counts [of "[huge_points_scored]"] huge_points_scored_beyond
  have 2: "calculate_analytics [huge_points_scored] = Inl OverflowError" by simp
  from ne season_within 1 2 huge_points_scored_beyond show ?thesis by simp
qed

text \<open>
  C1 as the specification states it fails on a record with \<open>2 ^ 1024\<close> points
  scored: the average of the points is beyond the largest float, the division raises
  OverflowError, and no summary is returned.
\<close>

theorem C1_huge_points_counterexample:
  "[huge_points_scored] \<noteq> [] \<and>
   calculate_analytics [huge_points_scored] = Inl OverflowError \<and>
   \<not> (\<exists>d. calculate_analytics [huge_points_scored] = Inr d \<and>
          getitem2 d ''summary'' ''total_games'' = Some (PInt 1))"
  by (simp add: huge_points_scored_def home_win_def evaluate_report evaluate_floats)

text \<open>
  C2, as the code has it. On a non-empty list of records \<open>calculate_analytics\<close> raises
  OverflowError exactly when one of the six totals it averages, divided by the number
  of records, is beyond the largest float (\<open>average_overflows\<close>). Otherwise it returns
  a report whose \<open>home_record\<close> is \<open>"{wins}-{losses}"\<close>
  over the records whose \<open>home_away\<close> is exactly \<open>home\<close>: wins the number of them whose
  result is exactly \<open>W\<close>, losses the number of them minus wins, so that wins and
  losses add up to the number of home records; \<open>away_record\<close> likewise over the records
  whose \<open>home_away\<close> is exactly \<open>away\<close>. A record of any other \<open>home_away\<close> is in
  neither, and is counted in \<open>total_games\<close> and in the summary's wins and losses.
\<close>

theorem C2_home_away_records:
  assumes "games \<noteq> []"
  shows "(average_overflows games \<longrightarrow> calculate_analytics games = Inl OverflowError) \<and>
    (\<not> average_overflows games \<longrightarrow>
    (\<exists>d hw hl aw al. calculate_analytics games = Inr d \<and>
       getitem2 d ''home_away'' ''home_record'' = Some (PStr (py_str hw @ ''-'' @ py_str hl)) \<and>
       getitem2 d ''home_away'' ''away_record'' = Some (PStr (py_str aw @ ''-'' @ py_str al)) \<and>
       hw = int (length (filter (\<lambda>g. home_away g = Some ''home'' \<and> result g = Some ''W'') games)) \<and>
       hl = int (length (filter (\<lambda>g. home_away g = Some ''home'') games)) - hw \<and>
       hw + hl = int (length (filter (\<lambda>g. home_away g = Some ''home'') games)) \<and>
       aw = int (length (filter (\<lambda>g. home_away g = Some ''away'' \<and> result g = Some ''W'') games)) \<and>
       al = int (length (filter (\<lambda>g. home_away g = Some ''away'') games)) - aw \<and>
       aw + al = int (length (filter (\<lambda>g. home_away g = Some ''away'') games)) \<and>
       getitem2 d ''summary'' ''total_games'' = Some (PInt (int (length games))) \<and>
       getitem2 d ''summary'' ''wins'' =
         Some (PInt (int (length (filter (\<lambda>g. result g = Some ''W'') games)))) \<and>
       getitem2 d ''summary'' ''losses'' =
         Some (PInt (int (length (filter (\<lambda>g. result g \<noteq> Some ''W'') games))))))"
    (is "_ \<and> (_ \<longrightarrow> ?report)")
proof -
  have either: "calculate_analytics games = Inl OverflowError \<or> ?report"
  proof (cases "calculate_analytics games")
  case (Inl e)
  then show ?thesis using calculate_analytics_error [of games e] by simp
next
  case (Inr d)
  let ?home = "\<lambda>g. home_away g = Some ''home''"
  let ?away = "\<lambda>g. home_away g = Some ''away''"
  from calculate_analytics_Inr [OF Inr assms] obtain wp sc off tu where
    d: "d = PDict
      [(''summary'', PDict
         [(''total_games'', PInt (int (length games))),
          (''wins'', PInt (count_wins games)),
          (''losses'', PInt (int (length games) - count_wins games)),
          (''win_percentage'', wp)]),
       (''scoring'', sc), (''offense'', off), (''turnovers'', tu),
       (''home_away'', PDict
         [(''home_record'',
             PStr (py_str (count_wins (filter ?home games)) @ ''-'' @
                   py_str (int (length (filter ?home games)) - count_wins (filter ?home games)))),
          (''away_record'',
             PStr (py_str (count_wins (filter ?away games)) @ ''-'' @
                   py_str (int (length (filter ?away games)) - count_wins (filter ?away games))))])]"
    by blast
  have rec:
    "getitem2 d ''home_away'' ''home_record'' =
       Some (PStr (py_str (count_wins (filter ?home games)) @ ''-'' @
         py_str (int (length (filter ?home games)) - count_wins (filter ?home games))))"
    "getitem2 d ''home_away'' ''away_record'' =
       Some (PStr (py_str (count_wins (filter ?away games)) @ ''-'' @
         py_str (int (length (filter ?away games)) - count_wins (filter ?away games))))"
    "getitem2 d ''summary'' ''total_games'' = Some (PInt (int (length games)))"
    "getitem2 d ''summary'' ''wins'' = Some (PInt (count_wins games))"
    "getitem2 d ''summary'' ''losses'' = Some (PInt (int (length games) - count_wins games))"
    by (simp_all add: d getitem2_def)
  have w: "count_wins games = int (length (filter (\<lambda>g. result g = Some ''W'') games))"
    by (simp add: count_wins_length is_win_def [abs_def])
  have l: "int (length games) - count_wins games =
      int (length (filter (\<lambda>g. result g \<noteq> Some ''W'') games))"
    using length_filter_split [of "\<lambda>g. result g = Some ''W''" games] by (simp add: w)
  show ?thesis
    apply (rule disjI2)
    apply (rule exI [of _ d])
    apply (rule exI [of _ "count_wins (filter ?home games)"])
    apply (rule exI [of _ "int (length (filter ?home games)) - count_wins (filter ?home games)"])
    apply (rule exI [of _ "count_wins (filter ?away games)"])
    apply (rule exI [of _ "int (length (filter ?away games)) - count_wins (filter ?away games)"])
    apply (simp add: Inr rec w [symmetric] l [symmetric])
    apply (simp add: count_wins_filter)
    done
  qed
  show ?thesis
  proof (intro conjI impI)
    assume "average_overflows games"
    with assms show "calculate_analytics games = Inl OverflowError"
      by (rule calculate_analytics_overflows)
  next
    assume "\<not> average_overflows games"
    with assms have "\<exists>d. calculate_analytics games = Inr d"
      by (rule calculate_analytics_within)
    then have returns: "calculate_analytics games \<noteq> Inl OverflowError" by auto
    from either show ?report
    proof
      assume "calculate_analytics games = Inl OverflowError"
      with returns show ?report by simp
    next
      assume ?report
      then show ?report .
    qed
  qed
qed

text \<open>
  C2 at the sample season: one home game, won; one away game, lost; one game on
  neutral ground, in neither record and among the three games of the summary.
\<close>

theorem C2_home_away_records_witness:
  "season \<noteq> [] \<and> \<not> average_overflows season \<and>
   (\<exists>d. calculate_analytics season = Inr d \<and>
      getitem2 d ''home_away'' ''home_record'' = Some (PStr ''1-0'') \<and>
      getitem2 d ''home_away'' ''away_record'' = Some (PStr ''0-1'') \<and>
      getitem2 d ''summary'' ''total_games'' = Some (PInt 3) \<and>
      getitem2 d ''summary'' ''wins'' = Some (PInt 2)) \<and>
   [huge_rushing_yards] \<noteq> [] \<and> average_overflows [huge_rushing_yards] \<and>
   calculate_analytics [huge_rushing_yards] = Inl OverflowError"
proof -
  have ne: "season \<noteq> []" by (simp add: season_def)
  have c:
    "int (length (filter (\<lambda>g. home_away g = Some ''home'' \<and> result g = Some ''W'') season)) = 1"
    "int (length (filter (\<lambda>g. home_away g = Some ''home'') season)) = 1"
    "int (length (filter (\<lambda>g. home_away g = Some ''away'' \<and> result g = Some ''W'') season)) = 0"
    "int (length (filter (\<lambda>g. home_away g = Some ''away'') season)) = 1"
    "int (length (filter (\<lambda>g. result g = Some ''W'') season)) = 2"
    "int (length season) = 3"
    by (simp_all add: season_def home_win_def away_loss_def neutral_win_def)
  from C2_home_away_records [OF ne] season_within
  have 1: "\<exists>d. calculate_analytics season = Inr d \<and>
      getitem2 d ''home_away'' ''home_record'' = Some (PStr ''1-0'') \<and>
      getitem2 d ''home_away'' ''away_record'' = Some (PStr ''0-1'') \<and>
      getitem2 d ''summary'' ''total_games'' = Some (PInt 3) \<and>
      getitem2 d ''summary'' ''wins'' = Some (PInt 2)"
    unfolding c
    by (auto simp: calculate_analytics_season py_str_def str_nat_digit digit_char_def)
  from C2_home_away_records [of "[huge_rushing_yards]"] huge_rushing_yards_beyond
  have 2: "calculate_analytics [huge_rushing_yards] = Inl OverflowError" by simp
  from ne season_within 1 2 huge_rushing_yards_beyond show ?thesis by simp
qed

text \<open>
  C2 as the specification states it fails on a home record with \<open>2 ^ 1024\<close> rushing
  yards: the division for the average raises OverflowError before the record strings
  are rendered.
\<close>

theorem C2_huge_yards_counterexample:
  "[huge_rushing_yards] \<noteq> [] \<and>
   calculate_analytics [huge_rushing_yards] = Inl OverflowError \<and>
   \<not> (\<exists>d. calculate_analytics [huge_rushing_yards] = Inr d \<and>
          getitem2 d ''home_away'' ''home_record'' = Some (PStr ''1-0''))"
  by (simp add: huge_rushing_yards_def home_win_def evaluate_report evaluate_floats)

text \<open>
  C3, as the code has it. On a non-empty list of records \<open>calculate_analytics\<close> raises
  OverflowError exactly when one of the six totals it averages, divided by the number
  of records, is beyond the largest float (\<open>average_overflows\<close>). Otherwise it returns
  a report whose \<open>win_percentage\<close> is
  \<^verbatim>\<open>round(wins / total_games * 100, 1)\<close> and whose \<open>avg_turnovers_per_game\<close> is
  \<^verbatim>\<open>round(total_turnovers / total_games, 2)\<close>, in float arithmetic. In particular, on
  three home records with results \<open>W\<close>, \<open>L\<close>, \<open>W\<close> and no such average the report has 2 wins, 1 loss, the
  win percentage \<open>66.7\<close> (the float nearest to it) and the home record \<open>2-1\<close>.
\<close>

theorem C3_win_percentage_and_turnover_average:
  "(games \<noteq> [] \<and> average_overflows games \<longrightarrow>
      calculate_analytics games = Inl OverflowError) \<and>
   (games \<noteq> [] \<and> \<not> average_overflows games \<longrightarrow>
      (\<exists>d q p t a. calculate_analytics games = Inr d \<and>
         py_int_truediv (int (length (filter (\<lambda>g. result g = Some ''W'') games)))
           (int (length games)) = Inr q \<and>
         py_round (py_float_mul q (Finite False 100)) 1 = Inr p \<and>
         getitem2 d ''summary'' ''win_percentage'' = Some (PFloat p) \<and>
         py_int_truediv (sum_list (map turnovers games)) (int (length games)) = Inr t \<and>
         py_round t 2 = Inr a \<and>
         getitem2 d ''turnovers'' ''avg_turnovers_per_game'' = Some (PFloat a))) \<and>
   (result g1 = Some ''W'' \<and> result g2 = Some ''L'' \<and> result g3 = Some ''W'' \<and>
    home_away g1 = Some ''home'' \<and> home_away g2 = Some ''home'' \<and> home_away g3 = Some ''home'' \<and>
    \<not> average_overflows [g1, g2, g3] \<longrightarrow>
      (\<exists>d. calculate_analytics [g1, g2, g3] = Inr d \<and>
         getitem2 d ''summary'' ''wins'' = Some (PInt 2) \<and>
         getitem2 d ''summary'' ''losses'' = Some (PInt 1) \<and>
         getitem2 d ''summary'' ''win_percentage'' = Some (PFloat (Finite False (to_double (667 / 10)))) \<and>
         getitem2 d ''home_away'' ''home_record'' = Some (PStr ''2-1'')))"
    (is "_ \<and> (_ \<longrightarrow> ?general) \<and> (_ \<longrightarrow> ?scenario)")
proof -
  have either:
   "(games \<noteq> [] \<longrightarrow> calculate_analytics games = Inl OverflowError \<or> ?general) \<and>
    (result g1 = Some ''W'' \<and> result g2 = Some ''L'' \<and> result g3 = Some ''W'' \<and>
     home_away g1 = Some ''home'' \<and> home_away g2 = Some ''home'' \<and> home_away g3 = Some ''home'' \<longrightarrow>
       calculate_analytics [g1, g2, g3] = Inl OverflowError \<or> ?scenario)"
  proof (intro conjI impI)
  assume ne: "games \<noteq> []"
  show "calculate_analytics games = Inl OverflowError \<or>
      (\<exists>d q p t a. calculate_analytics games = Inr d \<and>
         py_int_truediv (int (length (filter (\<lambda>g. result g = Some ''W'') games)))
           (int (length games)) = Inr q \<and>
         py_round (py_float_mul q (Finite False 100)) 1 = Inr p \<and>
         getitem2 d ''summary'' ''win_percentage'' = Some (PFloat p) \<and>
         py_int_truediv (sum_list (map turnovers games)) (int (length games)) = Inr t \<and>
         py_round t 2 = Inr a \<and>
         getitem2 d ''turnovers'' ''avg_turnovers_per_game'' = Some (PFloat a))"
  proof (cases "calculate_analytics games")
    case (Inl e)
    then show ?thesis using calculate_analytics_error [of games e] by simp
  next
    case (Inr d)
    from calculate_analytics_Inr [OF Inr ne] obtain wp atg su sc off tt ha where
      wp: "win_percentage_of (count_wins games) (int (length games)) = Inr wp" and
      atg: "rounded_ratio (sum_list (map turnovers games)) (int (length games)) 2 = Inr atg" and
      d: "d = PDict
        [(''summary'', PDict [(''total_games'', su), (''wins'', sc), (''losses'', off),
           (''win_percentage'', wp)]),
         (''scoring'', tt), (''offense'', ha),
         (''turnovers'', PDict
           [(''total_turnovers'', PInt (sum_list (map turnovers games))),
            (''avg_turnovers_per_game'', atg)]),
         (''home_away'', PDict
         [(''home_record'',
             PStr (py_str (count_wins (filter (\<lambda>g. home_away g = Some ''home'') games)) @ ''-'' @
                   py_str (int (length (filter (\<lambda>g. home_away g = Some ''home'') games)) -
                           count_wins (filter (\<lambda>g. home_away g = Some ''home'') games)))),
          (''away_record'',
             PStr (py_str (count_wins (filter (\<lambda>g. home_away g = Some ''away'') games)) @ ''-'' @
                   py_str (int (length (filter (\<lambda>g. home_away g = Some ''away'') games)) -
                           count_wins (filter (\<lambda>g. home_away g = Some ''away'') games))))])]"
      by blast
    have n: "0 < int (length games)" using ne by simp
    from win_percentage_of_Inr [OF wp n] obtain q p where
      q: "py_int_truediv (count_wins games) (int (length games)) = Inr q"
        "py_round (py_float_mul q (Finite False 100)) 1 = Inr p" "wp = PFloat p"
      by blast
    from rounded_ratio_Inr [OF atg] obtain t a where
      t: "py_int_truediv (sum_list (map turnovers games)) (int (length games)) = Inr t"
        "py_round t 2 = Inr a" "atg = PFloat a"
      by blast
    have w: "count_wins games = int (length (filter (\<lambda>g. result g = Some ''W'') games))"
      by (simp add: count_wins_length is_win_def [abs_def])
    have "getitem2 d ''summary'' ''win_percentage'' = Some (PFloat p)"
      "getitem2 d ''turnovers'' ''avg_turnovers_per_game'' = Some (PFloat a)"
      by (simp_all add: d getitem2_def q t)
    with Inr q t show ?thesis unfolding w by blast
  qed
next
  assume h: "result g1 = Some ''W'' \<and> result g2 = Some ''L'' \<and> result g3 = Some ''W'' \<and>
    home_away g1 = Some ''home'' \<and> home_away g2 = Some ''home'' \<and> home_away g3 = Some ''home''"
  let ?games = "[g1, g2, g3]"
  show "calculate_analytics ?games = Inl OverflowError \<or>
      (\<exists>d. calculate_analytics ?games = Inr d \<and>
         getitem2 d ''summary'' ''wins'' = Some (PInt 2) \<and>
         getitem2 d ''summary'' ''losses'' = Some (PInt 1) \<and>
         getitem2 d ''summary'' ''win_percentage'' = Some (PFloat (Finite False (to_double (667 / 10)))) \<and>
         getitem2 d ''home_away'' ''home_record'' = Some (PStr ''2-1''))"
  proof (cases "calculate_analytics ?games")
    case (Inl e)
    then show ?thesis using calculate_analytics_error [of ?games e] by simp
  next
    case (Inr d)
    have ne: "?games \<noteq> []" by simp
    have w: "count_wins ?games = 2" "int (length ?games) = 3"
      "count_wins (filter (\<lambda>g. home_away g = Some ''home'') ?games) = 2"
      "int (length (filter (\<lambda>g. home_away g = Some ''home'') ?games)) = 3"
      using h by (simp_all add: count_wins_def is_win_def)
    from calculate_analytics_Inr [OF Inr ne] obtain wp tg sc off tt ar where
      wp: "win_percentage_of (count_wins ?games) (int (length ?games)) = Inr wp" and
      d: "d = PDict
        [(''summary'', PDict [(''total_games'', tg),
           (''wins'', PInt (count_wins ?games)),
           (''losses'', PInt (int (length ?games) - count_wins ?games)),
           (''win_percentage'', wp)]),
         (''scoring'', sc), (''offense'', off), (''turnovers'', tt),
         (''home_away'', PDict
         [(''home_record'',
             PStr (py_str (count_wins (filter (\<lambda>g. home_away g = Some ''home'') ?games)) @ ''-'' @
                   py_str (int (length (filter (\<lambda>g. home_away g = Some ''home'') ?games)) -
                           count_wins (filter (\<lambda>g. home_away g = Some ''home'') ?games)))),
          (''away_record'', ar)])]"
      by blast
    from wp have "wp = PFloat (Finite False (to_double (667 / 10)))"
      unfolding w by (simp add: win_percentage_two_of_three)
    then have
      "getitem2 d ''summary'' ''wins'' = Some (PInt 2)"
      "getitem2 d ''summary'' ''losses'' = Some (PInt 1)"
      "getitem2 d ''summary'' ''win_percentage'' = Some (PFloat (Finite False (to_double (667 / 10))))"
      "getitem2 d ''home_away'' ''home_record'' = Some (PStr ''2-1'')"
      unfolding d w by (simp_all add: getitem2_def py_str_def str_nat_digit digit_char_def)
    with Inr show ?thesis by blast
  qed
  qed
  show ?thesis
  proof (intro conjI impI)
    assume "games \<noteq> [] \<and> average_overflows games"
    then show "calculate_analytics games = Inl OverflowError"
      using calculate_analytics_overflows by blast
  next
    assume a: "games \<noteq> [] \<and> \<not> average_overflows games"
    then have "\<exists>d. calculate_analytics games = Inr d"
      using calculate_analytics_within by blast
    then have "calculate_analytics games \<noteq> Inl OverflowError" by auto
    with either a show ?general by blast
  next
    assume a: "result g1 = Some ''W'' \<and> result g2 = Some ''L'' \<and> result g3 = Some ''W'' \<and>
      home_away g1 = Some ''home'' \<and> home_away g2 = Some ''home'' \<and> home_away g3 = Some ''home'' \<and>
      \<not> average_overflows [g1, g2, g3]"
    then have "\<exists>d. calculate_analytics [g1, g2, g3] = Inr d"
      using calculate_analytics_within [of "[g1, g2, g3]"] by blast
    then have "calculate_analytics [g1, g2, g3] \<noteq> Inl OverflowError" by auto
    with either a show ?scenario by blast
  qed
qed

text \<open>
  C3 at a record with \<open>2 ^ 1024\<close> turnovers, at the sample season, and at three home
  games won, lost and won.
\<close>

theorem C3_win_percentage_and_turnover_average_witness:
  "[huge_turnovers] \<noteq> [] \<and> average_overflows [huge_turnovers] \<and>
   calculate_analytics [huge_turnovers] = Inl OverflowError \<and>
   season \<noteq> [] \<and> \<not> average_overflows season \<and>
   (\<exists>d. calculate_analytics season = Inr d \<and>
      getitem2 d ''summary'' ''win_percentage'' = Some (PFloat (Finite False (to_double (667 / 10)))) \<and>
      getitem2 d ''turnovers'' ''avg_turnovers_per_game'' = Some (PFloat (Finite False 1))) \<and>
   result home_win = Some ''W'' \<and> result home_loss = Some ''L'' \<and>
   home_away home_win = Some ''home'' \<and> home_away home_loss = Some ''home'' \<and>
   \<not> average_overflows [home_win, home_loss, home_win] \<and>
   (\<exists>d. calculate_analytics [home_win, home_loss, home_win] = Inr d \<and>
      getitem2 d ''summary'' ''wins'' = Some (PInt 2) \<and>
      getitem2 d ''summary'' ''losses'' = Some (PInt 1) \<and>
      getitem2 d ''summary'' ''win_percentage'' = Some (PFloat (Finite False (to_double (667 / 10)))) \<and>
      getitem2 d ''home_away'' ''home_record'' = Some (PStr ''2-1''))"
proof -
  have ne: "season \<noteq> []" by (simp add: season_def)
  have h: "result home_win = Some ''W''" "result home_loss = Some ''L''"
    "home_away home_win = Some ''home''" "home_away home_loss = Some ''home''"
    by (simp_all add: home_win_def home_loss_def)
  note r = three_at_home_within
  note c = C3_win_percentage_and_turnover_average [of season home_win home_loss home_win]
  from C3_win_percentage_and_turnover_average [of "[huge_turnovers]"] huge_turnovers_beyond
  have 0: "calculate_analytics [huge_turnovers] = Inl OverflowError" by simp
  from c ne season_within have 1: "\<exists>d. calculate_analytics season = Inr d \<and>
      getitem2 d ''summary'' ''win_percentage'' = Some (PFloat (Finite False (to_double (667 / 10)))) \<and>
      getitem2 d ''turnovers'' ''avg_turnovers_per_game'' = Some (PFloat (Finite False 1))"
    by (simp add: calculate_analytics_season getitem2_def to_double_66_7)
  from c h r have 2: "\<exists>d. calculate_analytics [home_win, home_loss, home_win] = Inr d \<and>
      getitem2 d ''summary'' ''wins'' = Some (PInt 2) \<and>
      getitem2 d ''summary'' ''losses'' = Some (PInt 1) \<and>
      getitem2 d ''summary'' ''win_percentage'' = Some (PFloat (Finite False (to_double (667 / 10)))) \<and>
      getitem2 d ''home_away'' ''home_record'' = Some (PStr ''2-1'')"
    by blast
  from ne h 0 1 2 r season_within huge_turnovers_beyond show ?thesis by simp
qed

text \<open>
  C3 as the specification states it fails on a record with \<open>2 ^ 1024\<close> turnovers:
  \<^verbatim>\<open>total_turnovers / total_games\<close> raises OverflowError and no average is computed.
\<close>

theorem C3_huge_turnovers_counterexample:
  "[huge_turnovers] \<noteq> [] \<and>
   calculate_analytics [huge_turnovers] = Inl OverflowError \<and>
   \<not> (\<exists>d a. calculate_analytics [huge_turnovers] = Inr d \<and>
          getitem2 d ''turnovers'' ''avg_turnovers_per_game'' = Some (PFloat a))"
  by (simp add: huge_turnovers_def home_win_def evaluate_report evaluate_floats)

text \<open>
  C4, as the code has it. On a non-empty list of records \<open>calculate_analytics\<close> raises
  OverflowError exactly when one of the six totals it averages, divided by the number
  of records, is beyond the largest float (\<open>average_overflows\<close>). Otherwise it returns
  a report whose scoring and offense totals are the
  exact integer sums of the fields, whose \<open>point_differential\<close> is the total of points
  scored minus the total of points allowed, an integer, whose \<open>total_yards\<close> is the sum
  of the two yardage totals, and each of whose five averages is
  \<^verbatim>\<open>round(total / total_games, 1)\<close>.
\<close>

theorem C4_totals_and_averages:
  assumes "games \<noteq> []"
  shows "(average_overflows games \<longrightarrow> calculate_analytics games = Inl OverflowError) \<and>
    (\<not> average_overflows games \<longrightarrow>
    (\<exists>d aps apa ary apy aty. calculate_analytics games = Inr d \<and>
       getitem2 d ''scoring'' ''total_points_scored'' = Some (PInt (sum_list (map points_scored games))) \<and>
       getitem2 d ''scoring'' ''total_points_allowed'' = Some (PInt (sum_list (map points_allowed games))) \<and>
       getitem2 d ''scoring'' ''point_differential'' =
         Some (PInt (sum_list (map points_scored games) - sum_list (map points_allowed games))) \<and>
       getitem2 d ''offense'' ''total_rushing_yards'' = Some (PInt (sum_list (map rushing_yards games))) \<and>
       getitem2 d ''offense'' ''total_passing_yards'' = Some (PInt (sum_list (map passing_yards games))) \<and>
       getitem2 d ''offense'' ''total_yards'' =
         Some (PInt (sum_list (map rushing_yards games) + sum_list (map passing_yards games))) \<and>
       rounded_ratio (sum_list (map points_scored games)) (int (length games)) 1 = Inr aps \<and>
       getitem2 d ''scoring'' ''avg_points_scored'' = Some aps \<and>
       rounded_ratio (sum_list (map points_allowed games)) (int (length games)) 1 = Inr apa \<and>
       getitem2 d ''scoring'' ''avg_points_allowed'' = Some apa \<and>
       rounded_ratio (sum_list (map rushing_yards games)) (int (length games)) 1 = Inr ary \<and>
       getitem2 d ''offense'' ''avg_rushing_yards'' = Some ary \<and>
       rounded_ratio (sum_list (map passing_yards games)) (int (length games)) 1 = Inr apy \<and>
       getitem2 d ''offense'' ''avg_passing_yards'' = Some apy \<and>
       rounded_ratio (sum_list (map rushing_yards games) + sum_list (map passing_yards games))
         (int (length games)) 1 = Inr aty \<and>
       getitem2 d ''offense'' ''avg_total_yards'' = Some aty))"
    (is "_ \<and> (_ \<longrightarrow> ?report)")
proof -
  have either: "calculate_analytics games = Inl OverflowError \<or> ?report"
  proof (cases "calculate_analytics games")
  case (Inl e)
  then show ?thesis using calculate_analytics_error [of games e] by simp
next
  case (Inr d)
  from calculate_analytics_Inr [OF Inr assms] obtain aps apa ary apy aty su tu ha where
    r: "rounded_ratio (sum_list (map points_scored games)) (int (length games)) 1 = Inr aps"
      "rounded_ratio (sum_list (map points_allowed games)) (int (length games)) 1 = Inr apa"
      "rounded_ratio (sum_list (map rushing_yards games)) (int (length games)) 1 = Inr ary"
      "rounded_ratio (sum_list (map passing_yards games)) (int (length games)) 1 = Inr apy"
      "rounded_ratio (sum_list (map rushing_yards games) + sum_list (map passing_yards games))
        (int (length games)) 1 = Inr aty" and
    d: "d = PDict
      [(''summary'', su),
       (''scoring'', PDict
         [(''total_points_scored'', PInt (sum_list (map points_scored games))),
          (''total_points_allowed'', PInt (sum_list (map points_allowed games))),
          (''avg_points_scored'', aps),
          (''avg_points_allowed'', apa),
          (''point_differential'',
             PInt (sum_list (map points_scored games) - sum_list (map points_allowed games)))]),
       (''offense'', PDict
         [(''total_rushing_yards'', PInt (sum_list (map rushing_yards games))),
          (''total_passing_yards'', PInt (sum_list (map passing_yards games))),
          (''total_yards'',
             PInt (sum_list (map rushing_yards games) + sum_list (map passing_yards games))),
          (''avg_rushing_yards'', ary),
          (''avg_passing_yards'', apy),
          (''avg_total_yards'', aty)]),
       (''turnovers'', tu), (''home_away'', ha)]"
    by blast
  have
    "getitem2 d ''scoring'' ''total_points_scored'' = Some (PInt (sum_list (map points_scored games)))"
    "getitem2 d ''scoring'' ''total_points_allowed'' = Some (PInt (sum_list (map points_allowed games)))"
    "getitem2 d ''scoring'' ''point_differential'' =
       Some (PInt (sum_list (map points_scored games) - sum_list (map points_allowed games)))"
    "getitem2 d ''offense'' ''total_rushing_yards'' = Some (PInt (sum_list (map rushing_yards games)))"
    "getitem2 d ''offense'' ''total_passing_yards'' = Some (PInt (sum_list (map passing_yards games)))"
    "getitem2 d ''offense'' ''total_yards'' =
       Some (PInt (sum_list (map rushing_yards games) + sum_list (map passing_yards games)))"
    "getitem2 d ''scoring'' ''avg_points_scored'' = Some aps"
    "getitem2 d ''scoring'' ''avg_points_allowed'' = Some apa"
    "getitem2 d ''offense'' ''avg_rushing_yards'' = Some ary"
    "getitem2 d ''offense'' ''avg_passing_yards'' = Some apy"
    "getitem2 d ''offense'' ''avg_total_yards'' = Some aty"
    by (simp_all add: d getitem2_def)
  with Inr r show ?thesis by blast
  qed
  show ?thesis
  proof (intro conjI impI)
    assume "average_overflows games"
    with assms show "calculate_analytics games = Inl OverflowError"
      by (rule calculate_analytics_overflows)
  next
    assume "\<not> average_overflows games"
    with assms have "\<exists>d. calculate_analytics games = Inr d"
      by (rule calculate_analytics_within)
    then have returns: "calculate_analytics games \<noteq> Inl OverflowError" by auto
    from either show ?report
    proof
      assume "calculate_analytics games = Inl OverflowError"
      with returns show ?report by simp
    next
      assume ?report
      then show ?report .
    qed
  qed
qed

text \<open>
  C4 at the sample season, and at a record with \<open>2 ^ 1024\<close> points allowed.
\<close>

theorem C4_totals_and_averages_witness:
  "season \<noteq> [] \<and> \<not> average_overflows season \<and>
   (\<exists>d. calculate_analytics season = Inr d \<and>
      getitem2 d ''scoring'' ''total_points_scored'' = Some (PInt 60) \<and>
      getitem2 d ''scoring'' ''total_points_allowed'' = Some (PInt 90) \<and>
      getitem2 d ''scoring'' ''point_differential'' = Some (PInt (- 30)) \<and>
      getitem2 d ''offense'' ''total_yards'' = Some (PInt 900) \<and>
      getitem2 d ''scoring'' ''avg_points_scored'' = Some (PFloat (Finite False 20)) \<and>
      getitem2 d ''offense'' ''avg_total_yards'' = Some (PFloat (Finite False 300))) \<and>
   [huge_points_allowed] \<noteq> [] \<and> average_overflows [huge_points_allowed] \<and>
   calculate_analytics [huge_points_allowed] = Inl OverflowError"
proof -
  have ne: "season \<noteq> []" by (simp add: season_def)
  from C4_totals_and_averages [OF ne] season_within
  have 1: "\<exists>d. calculate_analytics season = Inr d \<and>
      getitem2 d ''scoring'' ''total_points_scored'' = Some (PInt 60) \<and>
      getitem2 d ''scoring'' ''total_points_allowed'' = Some (PInt 90) \<and>
      getitem2 d ''scoring'' ''point_differential'' = Some (PInt (- 30)) \<and>
      getitem2 d ''offense'' ''total_yards'' = Some (PInt 900) \<and>
      getitem2 d ''scoring'' ''avg_points_scored'' = Some (PFloat (Finite False 20)) \<and>
      getitem2 d ''offense'' ''avg_total_yards'' = Some (PFloat (Finite False 300))"
    by (simp add: calculate_analytics_season getitem2_def)
  from C4_totals_and_averages [of "[huge_points_allowed]"] huge_points_allowed_beyond
  have 2: "calculate_analytics [huge_points_allowed] = Inl OverflowError" by simp
  from ne season_within 1 2 huge_points_allowed_beyond show ?thesis by simp
qed

text \<open>
  C4 as the specification states it fails on a record with \<open>2 ^ 1024\<close> points
  allowed: the sum is exact, its average raises OverflowError, and no report is returned.
\<close>

theorem C4_huge_points_allowed_counterexample:
  "[huge_points_allowed] \<noteq> [] \<and>
   calculate_analytics [huge_points_allowed] = Inl OverflowError \<and>
   \<not> (\<exists>d. calculate_analytics [huge_points_allowed] = Inr d \<and>
          getitem2 d ''scoring'' ''total_points_allowed'' = Some (PInt (2 ^ 1024)))"
  by (simp add: huge_points_allowed_def home_win_def evaluate_report evaluate_floats)

text \<open>
  C5, as the code has it. On the empty list \<open>calculate_analytics\<close> returns the empty
  dict and raises nothing. It is a function of its argument alone. The one exception
  it raises is OverflowError, on a non-empty list; it raises none on a list of records
  whose statistics are at most \<open>2 ^ 999\<close> in absolute value.
\<close>

theorem C5_empty_sentinel_and_errors:
  "calculate_analytics [] = Inr (PDict []) \<and>
   (calculate_analytics games = Inl e \<longrightarrow> e = OverflowError \<and> games \<noteq> []) \<and>
   (list_all moderate games \<longrightarrow> (\<exists>d. calculate_analytics games = Inr d))"
proof (intro conjI impI)
  show "calculate_analytics [] = Inr (PDict [])" by (rule calculate_analytics_Nil)
next
  assume "calculate_analytics games = Inl e"
  then show "e = OverflowError" "games \<noteq> []"
    using calculate_analytics_error by blast+
next
  assume m: "list_all moderate games"
  show "\<exists>d. calculate_analytics games = Inr d"
  proof (cases "games = []")
    case True then show ?thesis by (simp add: calculate_analytics_Nil)
  next
    case False then show ?thesis using m by (rule calculate_analytics_moderate)
  qed
qed

text \<open>
  C5 at the empty list, at two records whose points average \<open>2 ^ 1024\<close>, and at the
  sample season.
\<close>

theorem C5_empty_sentinel_and_errors_witness:
  "calculate_analytics [] = Inr (PDict []) \<and>
   calculate_analytics [huge_points_scored, huge_points_scored] = Inl OverflowError \<and>
   list_all moderate season \<and>
   (\<exists>d. calculate_analytics season = Inr d)"
proof -
  have h: "calculate_analytics [huge_points_scored, huge_points_scored] = Inl OverflowError"
    using C5_empty_sentinel_and_errors [of "[huge_points_scored, huge_points_scored]" ZeroDivisionError]
    by (simp add: huge_points_scored_def home_win_def evaluate_report evaluate_floats)
  from C5_empty_sentinel_and_errors [of season] moderate_season h show ?thesis by blast
qed

text \<open>
  C5 as the specification states it fails on a record with \<open>2 ^ 1024\<close> passing
  yards: \<open>calculate_analytics\<close> has an error condition.
\<close>

theorem C5_huge_yards_counterexample:
  "calculate_analytics [huge_passing_yards] = Inl OverflowError \<and>
   calculate_analytics [huge_passing_yards] \<noteq> Inr (PDict [])"
  by (simp add: huge_passing_yards_def home_win_def evaluate_report evaluate_floats)

section \<open>What the reader returns\<close>

lemma row_get_Inr: "row_get row key = Inr v \<longleftrightarrow> row key = Some v"
  by (simp add: row_get_def split: option.splits)

lemma row_get_Inl: "row_get row key = Inl e \<longleftrightarrow> row key = None \<and> e = KeyError"
  by (auto simp: row_get_def split: option.splits)

lemma py_int_Inr: "py_int rt v = Inr i \<longleftrightarrow> (\<exists>s. v = Some s \<and> int_of_str rt s = Some i)"
  by (cases v) (auto simp: py_int_def split: option.splits)

lemma py_int_error: "py_int rt v = Inl e \<Longrightarrow> is_parse_error e"
  by (cases v) (auto simp: py_int_def is_parse_error_def split: option.splits)

lemma int_field_Inr:
  "int_field rt row key = Inr i \<longleftrightarrow> (\<exists>s. row key = Some (Some s) \<and> int_of_str rt s = Some i)"
  by (auto simp: int_field_def and_then_Inr row_get_Inr py_int_Inr)

lemma int_field_returns: "(\<exists>i. int_field rt row key = Inr i) \<longleftrightarrow> \<not> int_unreadable rt row key"
  by (auto simp: int_field_Inr int_unreadable_def split: option.splits)

lemma int_field_error: "int_field rt row key = Inl e \<Longrightarrow> is_parse_error e"
  by (auto simp: int_field_def and_then_Inl row_get_Inl is_parse_error_def dest: py_int_error)

lemma row_get_error: "row_get row key = Inl e \<Longrightarrow> is_parse_error e"
  by (simp add: row_get_Inl is_parse_error_def)

lemma make_game_error: "make_game rt row = Inl e \<Longrightarrow> is_parse_error e"
  unfolding make_game_def and_then_Inl
  by (elim disjE exE conjE) (simp_all add: int_field_error row_get_error)

lemma make_game_returns: "(\<exists>g. make_game rt row = Inr g) \<longleftrightarrow> \<not> unreadable rt row"
proof
  assume "\<exists>g. make_game rt row = Inr g"
  then obtain g where "make_game rt row = Inr g" ..
  then have
    "\<exists>i. int_field rt row ''game_id'' = Inr i" "\<exists>v. row ''date'' = Some v"
    "\<exists>v. row ''opponent'' = Some v" "\<exists>v. row ''home_away'' = Some v"
    "\<exists>i. int_field rt row ''points_scored'' = Inr i"
    "\<exists>i. int_field rt row ''points_allowed'' = Inr i"
    "\<exists>i. int_field rt row ''rushing_yards'' = Inr i"
    "\<exists>i. int_field rt row ''passing_yards'' = Inr i"
    "\<exists>i. int_field rt row ''turnovers'' = Inr i" "\<exists>v. row ''result'' = Some v"
    unfolding make_game_def and_then_Inr row_get_Inr by blast+
  then show "\<not> unreadable rt row"
    unfolding int_field_returns
    by (auto simp: unreadable_def required_fields_def int_fields_def int_unreadable_def
        split: option.splits)
next
  assume r: "\<not> unreadable rt row"
  then have "\<not> int_unreadable rt row ''game_id''" "\<not> int_unreadable rt row ''points_scored''"
    "\<not> int_unreadable rt row ''points_allowed''" "\<not> int_unreadable rt row ''rushing_yards''"
    "\<not> int_unreadable rt row ''passing_yards''" "\<not> int_unreadable rt row ''turnovers''"
    by (simp_all add: unreadable_def int_fields_def)
  then obtain i1 i2 i3 i4 i5 i6 where i:
    "int_field rt row ''game_id'' = Inr i1" "int_field rt row ''points_scored'' = Inr i2"
    "int_field rt row ''points_allowed'' = Inr i3" "int_field rt row ''rushing_yards'' = Inr i4"
    "int_field rt row ''passing_yards'' = Inr i5" "int_field rt row ''turnovers'' = Inr i6"
    unfolding int_field_returns [symmetric] by blast
  from r obtain v1 v2 v3 v4 where v:
    "row ''date'' = Some v1" "row ''opponent'' = Some v2" "row ''home_away'' = Some v3"
    "row ''result'' = Some v4"
    by (auto simp: unreadable_def required_fields_def)
  show "\<exists>g. make_game rt row = Inr g"
    by (simp add: make_game_def and_then_def i row_get_def v)
qed

lemma make_game_fails: "(\<exists>e. make_game rt row = Inl e) \<longleftrightarrow> unreadable rt row"
  using make_game_returns [of rt row] by (cases "make_game rt row") auto

lemma read_rows_Inr:
  "read_rows rt rows games = Inr all \<longleftrightarrow>
     (\<exists>gs. map (make_game rt) rows = map Inr gs \<and> all = games @ gs)"
proof (induction rows arbitrary: games)
  case Nil
  show ?case by auto
next
  case (Cons row rows)
  show ?case
  proof (cases "make_game rt row")
    case (Inl e)
    then show ?thesis by (auto simp: map_eq_Cons_conv)
  next
    case (Inr g)
    then show ?thesis by (auto simp: Cons.IH map_eq_Cons_conv)
  qed
qed

lemma read_rows_Inl:
  "read_rows rt rows games = Inl e \<Longrightarrow> \<exists>row \<in> set rows. make_game rt row = Inl e"
  by (induction rows arbitrary: games) (auto split: sum.splits)

lemma read_rows_fails:
  "row \<in> set rows \<Longrightarrow> make_game rt row = Inl e \<Longrightarrow> \<exists>e'. read_rows rt rows games = Inl e'"
  by (induction rows arbitrary: games) (auto split: sum.splits)

lemma read_rows_error: "read_rows rt rows games = Inl e \<Longrightarrow> is_parse_error e"
  using read_rows_Inl make_game_error by blast

lemma make_game_texts:
  "make_game rt row = Inr g \<Longrightarrow>
     row ''date'' = Some (date g) \<and> row ''opponent'' = Some (opponent g) \<and>
     row ''home_away'' = Some (home_away g) \<and> row ''result'' = Some (result g)"
  by (auto simp: make_game_def and_then_Inr row_get_Inr)

lemma fold_restval:
  "fold (\<lambda>key d. d(key \<mapsto> None)) keys d key = (if key \<in> set keys then Some None else d key)"
  by (induction keys arbitrary: d) auto

lemma dict_row_restval:
  "length cells < length fieldnames \<Longrightarrow> key \<in> set (drop (length cells) fieldnames) \<Longrightarrow>
     dict_row fieldnames cells key = Some None"
  by (simp add: dict_row_def Let_def fold_restval)

lemma read_rows_each:
  "read_rows rt rows games = Inr all \<Longrightarrow> row \<in> set rows \<Longrightarrow> \<exists>g. make_game rt row = Inr g"
  by (induction rows arbitrary: games) (auto split: sum.splits)

lemma read_game_stats_content:
  "open_read fs p = Inr content \<Longrightarrow>
     read_game_stats rt fs p =
       and_then (read_rows rt (DictReader (fst (csv_reader rt content))) [])
         (\<lambda>games. case snd (csv_reader rt content) of None \<Rightarrow> Inr games | Some e \<Rightarrow> Inl e)"
  by (simp add: read_game_stats_def and_then_def case_prod_beta)

lemma read_game_stats_closed: "open_read fs p = Inl e \<Longrightarrow> read_game_stats rt fs p = Inl e"
  by (simp add: read_game_stats_def and_then_def)


lemma read_game_stats_unreadable:
  assumes "open_read fs p = Inr content"
    and "row \<in> set (DictReader (fst (csv_reader rt content)))"
    and "unreadable rt row"
  shows "\<exists>e. is_parse_error e \<and> read_game_stats rt fs p = Inl e"
proof -
  from assms(3) obtain e0 where "make_game rt row = Inl e0"
    using make_game_fails by blast
  from read_rows_fails [OF assms(2) this] obtain e where
    e: "read_rows rt (DictReader (fst (csv_reader rt content))) [] = Inl e" ..
  from read_rows_error [OF e] have "is_parse_error e" .
  moreover have "read_game_stats rt fs p = Inl e"
    by (simp add: read_game_stats_content [OF assms(1)] e and_then_def)
  ultimately show ?thesis by blast
qed

lemma read_game_stats_readable:
  assumes "open_read fs p = Inr content"
    and "snd (csv_reader rt content) = None"
    and "map (make_game rt) (DictReader (fst (csv_reader rt content))) = map Inr gs"
  shows "read_game_stats rt fs p = Inr gs"
proof -
  have "read_rows rt (DictReader (fst (csv_reader rt content))) [] = Inr gs"
    unfolding read_rows_Inr using assms(3) by simp
  then show ?thesis
    by (simp add: read_game_stats_content [OF assms(1)] assms(2) and_then_def)
qed

section \<open>What the file system holds after a write\<close>











lemma write_analytics_Inl:
  "write_analytics rt analytics (output_file []) fs = Inl FileNotFoundError"
  by (simp add: write_analytics_def output_file_def makedirs_error_def)




section \<open>What a run does\<close>

lemma read_all_Inr:
  "map (read_game_stats rt fs) ps = map Inr gss \<Longrightarrow>
     read_all rt fs ps all_games = Inr (all_games @ concat gss)"
  by (induction ps arbitrary: all_games gss) (auto simp: map_eq_Cons_conv)

lemma read_all_Inl:
  "read_all rt fs ps all_games = Inl e \<Longrightarrow> \<exists>p \<in> set ps. read_game_stats rt fs p = Inl e"
  by (induction ps arbitrary: all_games) (auto split: sum.splits)

lemma read_all_fails:
  "p \<in> set ps \<Longrightarrow> read_game_stats rt fs p = Inl e \<Longrightarrow>
     \<exists>e'. read_all rt fs ps all_games = Inl e'"
  by (induction ps arbitrary: all_games) (auto split: sum.splits)



lemma read_all_first_failure:
  "p \<in> set ps \<Longrightarrow> read_game_stats rt fs p = Inl e \<Longrightarrow>
     \<forall>q \<in> set (takeWhile (\<lambda>q. q \<noteq> p) ps). \<exists>games. read_game_stats rt fs q = Inr games \<Longrightarrow>
     read_all rt fs ps all_games = Inl e"
proof (induction ps arbitrary: all_games)
  case Nil
  then show ?case by simp
next
  case (Cons q ps)
  show ?case
  proof (cases "q = p")
    case True
    with Cons.prems(2) show ?thesis by simp
  next
    case False
    with Cons.prems(3) obtain games where g: "read_game_stats rt fs q = Inr games" by auto
    from False Cons.prems have "read_all rt fs ps (all_games @ games) = Inl e"
      by (intro Cons.IH) auto
    with g show ?thesis by simp
  qed
qed


lemma glob_csv_Nil:
  "glob_csv fs input_path = [] \<longleftrightarrow>
     (\<forall>q \<in> set (map fst fs). strict_prefix input_path q \<longrightarrow> \<not> suffix ''.csv'' (q ! length input_path))"
  by (auto simp: glob_csv_def filter_empty_conv)




lemma run_analytics_no_source:
  "glob_csv fs input_path = [] \<Longrightarrow> run_analytics rt input_path output_path fs = (Inr (PDict []), fs)"
  by (simp add: run_analytics_def)

lemma run_analytics_read_error:
  "glob_csv fs input_path \<noteq> [] \<Longrightarrow> read_all rt fs (glob_csv fs input_path) [] = Inl e \<Longrightarrow>
     run_analytics rt input_path output_path fs = (Inl e, fs)"
  by (simp add: run_analytics_def)

lemma run_analytics_read:
  "glob_csv fs input_path \<noteq> [] \<Longrightarrow> read_all rt fs (glob_csv fs input_path) [] = Inr all_games \<Longrightarrow>
     run_analytics rt input_path output_path fs = report_and_write rt output_path fs all_games"
  by (simp add: run_analytics_def report_and_write_def)

lemma map_all_Inr:
  "(\<forall>x \<in> set xs. \<exists>y. f x = Inr y) \<Longrightarrow> \<exists>ys. map f xs = map Inr ys"
proof (induction xs)
  case Nil
  then show ?case by simp
next
  case (Cons x xs)
  then obtain y ys where "f x = Inr y" "map f xs = map Inr ys" by auto
  then have "map f (x # xs) = map Inr (y # ys)" by simp
  then show ?case by blast
qed

lemma report_and_write_Inr:
  "calculate_analytics all_games = Inr d \<Longrightarrow>
   write_analytics rt d (output_file output_path) fs = Inr fs' \<Longrightarrow>
     report_and_write rt output_path fs all_games = (Inr d, fs')"
  by (simp add: report_and_write_def)

section \<open>Evaluating runs on the samples\<close>

lemmas evaluate_files =
  open_read_def file_at_def is_dir_def makedirs_error_def write_analytics_def output_file_def
  glob_csv_def suffix_to_prefix

lemmas evaluate_reader =
  read_game_stats_def evaluate_files sample_runtime_def plain_reader_def plain_csv_def plain_int_def
  digit_of_def csv_text_def newline_def header_line_def dict_row_def make_game_def int_field_def
  row_get_def py_int_def and_then_def

lemma glob_two_sources:
  "glob_csv two_sources [''input''] = [[''input'', ''week1.csv''], [''input'', ''later.csv'']]"
  by (simp add: two_sources_def glob_csv_def suffix_to_prefix)

lemma read_week1:
  "read_game_stats sample_runtime two_sources [''input'', ''week1.csv''] =
     Inr [home_win, second_home_win]"
  by (simp add: two_sources_def evaluate_reader home_win_line_def second_home_win_line_def
      home_win_def second_home_win_def)

lemma read_later:
  "read_game_stats sample_runtime two_sources [''input'', ''later.csv''] = Inr [away_loss, neutral_win]"
  by (simp add: two_sources_def evaluate_reader away_loss_line_def neutral_win_line_def
      away_loss_def neutral_win_def)

lemma read_short_row:
  "read_game_stats sample_runtime short_row_source [''input'', ''games.csv''] = Inr [away_no_result]"
  by (simp add: short_row_source_def evaluate_reader no_result_line_def away_no_result_def)

lemma glob_no_turnovers:
  "glob_csv no_turnovers_source [''input''] = [[''input'', ''week1.csv''], [''input'', ''games.csv'']]"
  by (simp add: no_turnovers_source_def glob_csv_def suffix_to_prefix)

lemma read_no_turnovers_week1:
  "read_game_stats sample_runtime no_turnovers_source [''input'', ''week1.csv''] = Inr [home_win]"
  by (simp add: no_turnovers_source_def evaluate_reader home_win_line_def home_win_def)

lemma read_no_turnovers:
  "read_game_stats sample_runtime no_turnovers_source [''input'', ''games.csv''] = Inl TypeError"
  by (simp add: no_turnovers_source_def evaluate_reader home_win_line_def no_turnovers_line_def)

lemma read_header_only:
  "read_game_stats sample_runtime header_only [''input'', ''games.csv''] = Inr []"
  by (simp add: header_only_def evaluate_reader)

lemma calculate_analytics_away_no_result:
  "calculate_analytics [away_no_result] = Inr (PDict
     [(''summary'', PDict
        [(''total_games'', PInt 1), (''wins'', PInt 0), (''losses'', PInt 1),
         (''win_percentage'', PFloat (Finite False 0))]),
      (''scoring'', PDict
        [(''total_points_scored'', PInt 10), (''total_points_allowed'', PInt 40),
         (''avg_points_scored'', PFloat (Finite False 10)),
         (''avg_points_allowed'', PFloat (Finite False 40)),
         (''point_differential'', PInt (- 30))]),
      (''offense'', PDict
        [(''total_rushing_yards'', PInt 50), (''total_passing_yards'', PInt 100),
         (''total_yards'', PInt 150),
         (''avg_rushing_yards'', PFloat (Finite False 50)),
         (''avg_passing_yards'', PFloat (Finite False 100)),
         (''avg_total_yards'', PFloat (Finite False 150))]),
      (''turnovers'', PDict
        [(''total_turnovers'', PInt 2),
         (''avg_turnovers_per_game'', PFloat (Finite False 2))]),
      (''home_away'', PDict
        [(''home_record'', PStr ''0-0''), (''away_record'', PStr ''0-1'')])])"
  by (simp add: away_no_result_def evaluate_report evaluate_floats)

lemma glob_header_only: "glob_csv header_only [''input''] = [[''input'', ''games.csv'']]"
  by (simp add: header_only_def glob_csv_def suffix_to_prefix)

lemma write_header_only:
  "write_analytics sample_runtime (PDict []) (output_file [''output'']) header_only =
     Inr (header_only @ [([''output'', ''eagles_analytics_report.json''], File ''{}'')])"
  by (simp add: header_only_def evaluate_files)

lemma run_header_only:
  "run_analytics sample_runtime [''input''] [''output''] header_only =
     (Inr (PDict []), header_only @ [([''output'', ''eagles_analytics_report.json''], File ''{}'')])"
  by (simp add: run_analytics_def glob_header_only read_header_only calculate_analytics_Nil
      write_header_only)

section \<open>The claims about the reader and the orchestrator\<close>

text \<open>
  C6, as the code has it. A data row is unreadable when its dict lacks one of the ten
  field names, or when one of the six integer fields is \<^verbatim>\<open>None\<close> (the row is too
  short to supply it) or a text that \<^verbatim>\<open>int\<close> rejects. On a source that opens and
  whose reader yields such a row, \<open>read_game_stats\<close> raises KeyError, TypeError or
  ValueError. The run then raises the exception of the first source, in listing order,
  that fails, which is that of this source when every source listed before it reads,
  and leaves the file system as it was: no records, no output file. Every other row is
  made a record that has the row's four text fields as they are, and a field that a
  row shorter than the header lacks is \<^verbatim>\<open>None\<close> in the row's dict.
\<close>

theorem C6_unreadable_row_aborts:
  "(p \<in> set (glob_csv fs input_path) \<and> open_read fs p = Inr content \<and>
    row \<in> set (DictReader (fst (csv_reader rt content))) \<and> unreadable rt row \<longrightarrow>
      (\<exists>e e'. is_parse_error e \<and> read_game_stats rt fs p = Inl e \<and>
         run_analytics rt input_path output_path fs = (Inl e', fs) \<and>
         (\<exists>p' \<in> set (glob_csv fs input_path). read_game_stats rt fs p' = Inl e') \<and>
         ((\<forall>q \<in> set (takeWhile (\<lambda>q. q \<noteq> p) (glob_csv fs input_path)).
             \<exists>games. read_game_stats rt fs q = Inr games) \<longrightarrow> e' = e))) \<and>
   (\<not> unreadable rt r \<longrightarrow>
      (\<exists>g. make_game rt r = Inr g \<and> r ''date'' = Some (date g) \<and>
         r ''opponent'' = Some (opponent g) \<and> r ''home_away'' = Some (home_away g) \<and>
         r ''result'' = Some (result g))) \<and>
   (length cells < length fieldnames \<and> key \<in> set (drop (length cells) fieldnames) \<longrightarrow>
      dict_row fieldnames cells key = Some None)"
proof (intro conjI impI)
  assume a: "p \<in> set (glob_csv fs input_path) \<and> open_read fs p = Inr content \<and>
    row \<in> set (DictReader (fst (csv_reader rt content))) \<and> unreadable rt row"
  then have m: "p \<in> set (glob_csv fs input_path)" by simp
  from a obtain e where pe: "is_parse_error e" and e: "read_game_stats rt fs p = Inl e"
    using read_game_stats_unreadable [of fs p content row rt] by blast
  from read_all_fails [OF m e] obtain e' where
    e': "read_all rt fs (glob_csv fs input_path) [] = Inl e'" ..
  from read_all_Inl [OF e'] have first:
    "\<exists>p' \<in> set (glob_csv fs input_path). read_game_stats rt fs p' = Inl e'" .
  have "glob_csv fs input_path \<noteq> []" using m by auto
  from run_analytics_read_error [OF this e'] have run:
    "run_analytics rt input_path output_path fs = (Inl e', fs)" .
  have same: "e' = e"
    if "\<forall>q \<in> set (takeWhile (\<lambda>q. q \<noteq> p) (glob_csv fs input_path)).
      \<exists>games. read_game_stats rt fs q = Inr games"
    using read_all_first_failure [OF m e that, of "[]"] e' by simp
  from pe e run first same show "\<exists>e e'. is_parse_error e \<and> read_game_stats rt fs p = Inl e \<and>
      run_analytics rt input_path output_path fs = (Inl e', fs) \<and>
      (\<exists>p' \<in> set (glob_csv fs input_path). read_game_stats rt fs p' = Inl e') \<and>
      ((\<forall>q \<in> set (takeWhile (\<lambda>q. q \<noteq> p) (glob_csv fs input_path)).
          \<exists>games. read_game_stats rt fs q = Inr games) \<longrightarrow> e' = e)"
    by blast
next
  assume "\<not> unreadable rt r"
  then obtain g where "make_game rt r = Inr g"
    using make_game_returns by blast
  with make_game_texts [OF this] show "\<exists>g. make_game rt r = Inr g \<and> r ''date'' = Some (date g) \<and>
      r ''opponent'' = Some (opponent g) \<and> r ''home_away'' = Some (home_away g) \<and>
      r ''result'' = Some (result g)"
    by blast
next
  assume "length cells < length fieldnames \<and> key \<in> set (drop (length cells) fieldnames)"
  then show "dict_row fieldnames cells key = Some None"
    by (simp add: dict_row_restval)
qed

text \<open>
  C6 at a directory whose first source reads and whose second source has a data row
  that stops before its \<^verbatim>\<open>turnovers\<close> field: the reader raises TypeError, so does the
  run, and the file system is as it was. A row that stops before its \<^verbatim>\<open>result\<close>
  field is readable: its record has \<^verbatim>\<open>None\<close> for the result.
\<close>

theorem C6_unreadable_row_aborts_witness:
  "[''input'', ''games.csv''] \<in> set (glob_csv no_turnovers_source [''input'']) \<and>
   open_read no_turnovers_source [''input'', ''games.csv''] =
     Inr (csv_text [header_line, home_win_line, no_turnovers_line]) \<and>
   dict_row (split_on CHR '','' header_line) (split_on CHR '','' no_turnovers_line)
     \<in> set (DictReader (fst (csv_reader sample_runtime
          (csv_text [header_line, home_win_line, no_turnovers_line])))) \<and>
   unreadable sample_runtime
     (dict_row (split_on CHR '','' header_line) (split_on CHR '','' no_turnovers_line)) \<and>
   read_game_stats sample_runtime no_turnovers_source [''input'', ''games.csv''] = Inl TypeError \<and>
   takeWhile (\<lambda>q. q \<noteq> [''input'', ''games.csv'']) (glob_csv no_turnovers_source [''input'']) =
     [[''input'', ''week1.csv'']] \<and>
   read_game_stats sample_runtime no_turnovers_source [''input'', ''week1.csv''] = Inr [home_win] \<and>
   run_analytics sample_runtime [''input''] [''output''] no_turnovers_source =
     (Inl TypeError, no_turnovers_source) \<and>
   \<not> unreadable sample_runtime
     (dict_row (split_on CHR '','' header_line) (split_on CHR '','' no_result_line)) \<and>
   make_game sample_runtime
     (dict_row (split_on CHR '','' header_line) (split_on CHR '','' no_result_line)) =
     Inr away_no_result \<and>
   result away_no_result = None \<and>
   length (split_on CHR '','' no_result_line) < length (split_on CHR '','' header_line) \<and>
   ''result'' \<in> set (drop (length (split_on CHR '','' no_result_line)) (split_on CHR '','' header_line)) \<and>
   dict_row (split_on CHR '','' header_line) (split_on CHR '','' no_result_line) ''result'' = Some None"
proof -
  let ?p = "[''input'', ''games.csv'']"
  let ?text = "csv_text [header_line, home_win_line, no_turnovers_line]"
  let ?row = "dict_row (split_on CHR '','' header_line) (split_on CHR '','' no_turnovers_line)"
  let ?short = "dict_row (split_on CHR '','' header_line) (split_on CHR '','' no_result_line)"
  note g = glob_no_turnovers
  have 1: "?p \<in> set (glob_csv no_turnovers_source [''input''])"
    by (simp add: g)
  have 2: "open_read no_turnovers_source ?p = Inr ?text"
    by (simp add: no_turnovers_source_def evaluate_files)
  have 3: "?row \<in> set (DictReader (fst (csv_reader sample_runtime ?text)))"
    by (simp add: sample_runtime_def plain_reader_def plain_csv_def csv_text_def newline_def
        header_line_def home_win_line_def no_turnovers_line_def)
  have 4: "unreadable sample_runtime ?row"
    by (simp add: unreadable_def int_fields_def required_fields_def int_unreadable_def
        dict_row_def header_line_def no_turnovers_line_def)
  have 5: "takeWhile (\<lambda>q. q \<noteq> ?p) (glob_csv no_turnovers_source [''input'']) =
      [[''input'', ''week1.csv'']]"
    by (simp add: g)
  have 6: "\<not> unreadable sample_runtime ?short"
    by (simp add: unreadable_def int_fields_def required_fields_def int_unreadable_def
        dict_row_def header_line_def no_result_line_def sample_runtime_def plain_int_def
        digit_of_def)
  have 7: "length (split_on CHR '','' no_result_line) < length (split_on CHR '','' header_line)"
    "''result'' \<in> set (drop (length (split_on CHR '','' no_result_line))
       (split_on CHR '','' header_line))"
    by (simp_all add: header_line_def no_result_line_def)
  have 8: "make_game sample_runtime ?short = Inr away_no_result"
    by (simp add: evaluate_reader no_result_line_def away_no_result_def)
  have 9: "result away_no_result = None" by (simp add: away_no_result_def)
  note c = C6_unreadable_row_aborts [where p = ?p and fs = no_turnovers_source and
      input_path = "[''input'']" and content = ?text and row = ?row and rt = sample_runtime and
      output_path = "[''output'']" and r = ?short and
      cells = "split_on CHR '','' no_result_line" and
      fieldnames = "split_on CHR '','' header_line" and key = "''result''"]
  from c 1 2 3 4 obtain e e' where
    r: "read_game_stats sample_runtime no_turnovers_source ?p = Inl e"
      "run_analytics sample_runtime [''input''] [''output''] no_turnovers_source =
         (Inl e', no_turnovers_source)"
      "(\<forall>q \<in> set (takeWhile (\<lambda>q. q \<noteq> ?p) (glob_csv no_turnovers_source [''input''])).
          \<exists>games. read_game_stats sample_runtime no_turnovers_source q = Inr games) \<longrightarrow> e' = e"
    by blast
  from r(1) have "e = TypeError" by (simp add: read_no_turnovers)
  moreover from r(3) have "e' = e" by (simp add: 5 read_no_turnovers_week1)
  ultimately have 10: "run_analytics sample_runtime [''input''] [''output''] no_turnovers_source =
      (Inl TypeError, no_turnovers_source)"
    using r(2) by simp
  from c 7 have 11: "?short ''result'' = Some None" by blast
  from 1 2 3 4 5 6 7 8 9 10 11 read_no_turnovers read_no_turnovers_week1 show ?thesis
    by blast
qed

text \<open>
  C6 as the specification states it fails on a row that stops before its last field,
  \<^verbatim>\<open>result\<close>: the reader returns the record with \<^verbatim>\<open>None\<close> for the result, the
  aggregator counts it as a loss, and the run writes the report.
\<close>

theorem C6_short_row_counterexample:
  "csv_reader sample_runtime (csv_text [header_line, no_result_line]) =
     ([split_on CHR '','' header_line, split_on CHR '','' no_result_line], None) \<and>
   length (split_on CHR '','' header_line) = 10 \<and>
   length (split_on CHR '','' no_result_line) = 9 \<and>
   read_game_stats sample_runtime short_row_source [''input'', ''games.csv''] = Inr [away_no_result] \<and>
   result away_no_result = None \<and>
   (\<exists>d. run_analytics sample_runtime [''input''] [''output''] short_row_source =
      (Inr d, short_row_source @ [([''output'', ''eagles_analytics_report.json''],
         File (json_dumps integral_repr 0 d))]) \<and>
      getitem2 d ''summary'' ''losses'' = Some (PInt 1))"
proof -
  let ?d = "projr (calculate_analytics [away_no_result])"
  have g: "glob_csv short_row_source [''input''] = [[''input'', ''games.csv'']]"
    by (simp add: short_row_source_def glob_csv_def suffix_to_prefix)
  have u: "write_analytics sample_runtime d (output_file [''output'']) short_row_source =
      Inr (short_row_source @ [([''output'', ''eagles_analytics_report.json''],
        File (json_dumps integral_repr 0 d))])" for d
    by (simp add: short_row_source_def evaluate_files sample_runtime_def)
  have c: "calculate_analytics [away_no_result] = Inr ?d"
    by (simp add: calculate_analytics_away_no_result)
  have "run_analytics sample_runtime [''input''] [''output''] short_row_source =
      report_and_write sample_runtime [''output''] short_row_source [away_no_result]"
    by (simp add: run_analytics_def report_and_write_def g read_short_row)
  also have "\<dots> = (Inr ?d,
      short_row_source @ [([''output'', ''eagles_analytics_report.json''],
         File (json_dumps integral_repr 0 ?d))])"
    by (rule report_and_write_Inr [OF c u])
  finally have r: "run_analytics sample_runtime [''input''] [''output''] short_row_source =
      (Inr ?d,
       short_row_source @ [([''output'', ''eagles_analytics_report.json''],
         File (json_dumps integral_repr 0 ?d))])" .
  have l: "getitem2 ?d ''summary'' ''losses'' = Some (PInt 1)"
    by (simp add: calculate_analytics_away_no_result getitem2_def)
  have c: "csv_reader sample_runtime (csv_text [header_line, no_result_line]) =
     ([split_on CHR '','' header_line, split_on CHR '','' no_result_line], None)"
    by (simp add: sample_runtime_def plain_reader_def plain_csv_def csv_text_def newline_def
        header_line_def no_result_line_def)
  have n: "length (split_on CHR '','' header_line) = 10" "length (split_on CHR '','' no_result_line) = 9"
    by (simp_all add: header_line_def no_result_line_def)
  have "result away_no_result = None" by (simp add: away_no_result_def)
  with r l c n read_short_row show ?thesis by blast
qed

text \<open>
  C7, as the code has it. When the input directory has no entry, regular file or
  directory, whose name ends in \<^verbatim>\<open>.csv\<close>, the listing of sources is empty and
  \<open>run_analytics\<close> returns the empty dict, raises nothing and leaves the file system as
  it was: it writes no output file.
\<close>

theorem C7_no_source_no_output:
  assumes "\<not> csv_entry fs input_path"
  shows "glob_csv fs input_path = [] \<and>
    run_analytics rt input_path output_path fs = (Inr (PDict []), fs)"
proof -
  from assms have "glob_csv fs input_path = []"
    by (simp add: glob_csv_Nil csv_entry_def list_ex_iff)
  then show ?thesis by (simp add: run_analytics_no_source)
qed

text \<open>
  C7 at a directory that holds a text file, an empty directory and, one level down, a
  source.
\<close>

theorem C7_no_source_no_output_witness:
  "\<not> csv_entry no_sources [''input''] \<and>
   glob_csv no_sources [''input''] = [] \<and>
   run_analytics sample_runtime [''input''] [''output''] no_sources = (Inr (PDict []), no_sources) \<and>
   map_of no_sources (output_file [''output'']) = None"
proof -
  have e: "\<not> csv_entry no_sources [''input'']"
    by (simp add: no_sources_def csv_entry_def suffix_to_prefix)
  have "map_of no_sources (output_file [''output'']) = None"
    by (simp add: no_sources_def output_file_def)
  with e C7_no_source_no_output [OF e] show ?thesis by simp
qed

text \<open>
  C7 as the specification states it fails on an input directory whose only entry of a
  matching name is a directory, \<^verbatim>\<open>old.csv\<close>: the directory holds no source file, the
  listing yields \<^verbatim>\<open>old.csv\<close>, and \<^verbatim>\<open>open\<close> raises IsADirectoryError on it.
\<close>

theorem C7_csv_directory_counterexample:
  "map fst csv_directory = [[''input'', ''old.csv'', ''notes.txt'']] \<and>
   \<not> file_at csv_directory [''input'', ''old.csv''] \<and>
   is_dir csv_directory [''input'', ''old.csv''] \<and>
   glob_csv csv_directory [''input''] = [[''input'', ''old.csv'']] \<and>
   read_game_stats sample_runtime csv_directory [''input'', ''old.csv''] = Inl IsADirectoryError \<and>
   run_analytics sample_runtime [''input''] [''output''] csv_directory =
     (Inl IsADirectoryError, csv_directory) \<and>
   run_analytics sample_runtime [''input''] [''output''] csv_directory \<noteq>
     (Inr (PDict []), csv_directory)"
proof -
  have g: "glob_csv csv_directory [''input''] = [[''input'', ''old.csv'']]"
    by (simp add: csv_directory_def glob_csv_def suffix_to_prefix)
  have r: "read_game_stats sample_runtime csv_directory [''input'', ''old.csv''] =
      Inl IsADirectoryError"
    by (simp add: csv_directory_def read_game_stats_def and_then_def evaluate_files)
  have "run_analytics sample_runtime [''input''] [''output''] csv_directory =
      (Inl IsADirectoryError, csv_directory)"
    by (simp add: run_analytics_def g r)
  moreover have "map fst csv_directory = [[''input'', ''old.csv'', ''notes.txt'']]"
    "\<not> file_at csv_directory [''input'', ''old.csv'']"
    "is_dir csv_directory [''input'', ''old.csv'']"
    by (simp_all add: csv_directory_def file_at_def is_dir_def)
  ultimately show ?thesis using g r by simp
qed

text \<open>
  C8. The reader returns the records of the data rows in the order of the rows, record
  \<open>i\<close> made from row \<open>i\<close>, whenever the source opens, the reader raises nothing and
  every row is readable. Where every source reads, the run passes to the aggregator the
  records of the sources, concatenated in the order the directory listing gives the
  sources, and writes what the aggregator returns.
\<close>

theorem C8_order_preserved:
  "(open_read fs p = Inr content \<and> snd (csv_reader rt content) = None \<and>
    (\<forall>row \<in> set (DictReader (fst (csv_reader rt content))). \<not> unreadable rt row) \<longrightarrow>
      (\<exists>games. read_game_stats rt fs p = Inr games \<and>
         length games = length (DictReader (fst (csv_reader rt content))) \<and>
         (\<forall>i < length games.
            make_game rt (DictReader (fst (csv_reader rt content)) ! i) = Inr (games ! i)))) \<and>
   (glob_csv fs input_path \<noteq> [] \<and>
    map (read_game_stats rt fs) (glob_csv fs input_path) = map Inr gss \<longrightarrow>
      read_all rt fs (glob_csv fs input_path) [] = Inr (concat gss) \<and>
      run_analytics rt input_path output_path fs = report_and_write rt output_path fs (concat gss))"
proof (intro conjI impI)
  let ?rows = "DictReader (fst (csv_reader rt content))"
  assume a: "open_read fs p = Inr content \<and> snd (csv_reader rt content) = None \<and>
    (\<forall>row \<in> set ?rows. \<not> unreadable rt row)"
  then have "\<forall>row \<in> set ?rows. \<exists>g. make_game rt row = Inr g"
    by (simp add: make_game_returns)
  then have "\<exists>gs. map (make_game rt) ?rows = map Inr gs"
    by (rule map_all_Inr)
  then obtain gs where gs: "map (make_game rt) ?rows = map Inr gs" ..
  from a have "open_read fs p = Inr content" "snd (csv_reader rt content) = None" by simp_all
  from read_game_stats_readable [OF this gs] have r: "read_game_stats rt fs p = Inr gs" .
  from gs have len: "length gs = length ?rows" by (metis length_map)
  have "make_game rt (?rows ! i) = Inr (gs ! i)" if "i < length gs" for i
  proof -
    have "map (make_game rt) ?rows ! i = map Inr gs ! i" by (simp only: gs)
    with that len show ?thesis by simp
  qed
  with r len show "\<exists>games. read_game_stats rt fs p = Inr games \<and>
      length games = length ?rows \<and>
      (\<forall>i < length games. make_game rt (?rows ! i) = Inr (games ! i))"
    by blast
next
  assume a: "glob_csv fs input_path \<noteq> [] \<and>
    map (read_game_stats rt fs) (glob_csv fs input_path) = map Inr gss"
  then have r: "read_all rt fs (glob_csv fs input_path) [] = Inr ([] @ concat gss)"
    by (intro read_all_Inr) simp
  then show "read_all rt fs (glob_csv fs input_path) [] = Inr (concat gss)" by simp
  from a r show "run_analytics rt input_path output_path fs =
      report_and_write rt output_path fs (concat gss)"
    by (simp add: run_analytics_read)
qed

text \<open>
  C8 at a directory with two sources, the second with a blank line between its rows.
\<close>

theorem C8_order_preserved_witness:
  "open_read two_sources [''input'', ''later.csv''] =
     Inr (csv_text [header_line, away_loss_line, [], neutral_win_line]) \<and>
   snd (csv_reader sample_runtime (csv_text [header_line, away_loss_line, [], neutral_win_line])) = None \<and>
   list_all (\<lambda>row. \<not> unreadable sample_runtime row)
     (DictReader (fst (csv_reader sample_runtime
        (csv_text [header_line, away_loss_line, [], neutral_win_line])))) \<and>
   read_game_stats sample_runtime two_sources [''input'', ''later.csv''] = Inr [away_loss, neutral_win] \<and>
   length (DictReader (fst (csv_reader sample_runtime
        (csv_text [header_line, away_loss_line, [], neutral_win_line])))) = 2 \<and>
   make_game sample_runtime (DictReader (fst (csv_reader sample_runtime
        (csv_text [header_line, away_loss_line, [], neutral_win_line]))) ! 1) = Inr neutral_win \<and>
   glob_csv two_sources [''input''] = [[''input'', ''week1.csv''], [''input'', ''later.csv'']] \<and>
   map (read_game_stats sample_runtime two_sources) (glob_csv two_sources [''input'']) =
     map Inr [[home_win, second_home_win], [away_loss, neutral_win]] \<and>
   read_all sample_runtime two_sources (glob_csv two_sources [''input'']) [] =
     Inr [home_win, second_home_win, away_loss, neutral_win] \<and>
   run_analytics sample_runtime [''input''] [''output''] two_sources =
     report_and_write sample_runtime [''output''] two_sources
         [home_win, second_home_win, away_loss, neutral_win]"
proof -
  let ?text = "csv_text [header_line, away_loss_line, [], neutral_win_line]"
  let ?rows = "DictReader (fst (csv_reader sample_runtime ?text))"
  have 1: "open_read two_sources [''input'', ''later.csv''] = Inr ?text"
    by (simp add: two_sources_def evaluate_files)
  have n: "snd (csv_reader sample_runtime ?text) = None"
    by (simp add: sample_runtime_def plain_reader_def)
  have rows: "?rows =
      [dict_row (split_on CHR '','' header_line) (split_on CHR '','' away_loss_line),
       dict_row (split_on CHR '','' header_line) (split_on CHR '','' neutral_win_line)]"
    by (simp add: sample_runtime_def plain_reader_def plain_csv_def csv_text_def newline_def
        header_line_def away_loss_line_def neutral_win_line_def)
  have 2: "list_all (\<lambda>row. \<not> unreadable sample_runtime row) ?rows"
    unfolding rows
    by (simp add: unreadable_def int_fields_def required_fields_def int_unreadable_def
        dict_row_def header_line_def away_loss_line_def neutral_win_line_def sample_runtime_def
        plain_int_def digit_of_def)
  have 3: "glob_csv two_sources [''input''] \<noteq> []" by (simp add: glob_two_sources)
  have 4: "map (read_game_stats sample_runtime two_sources) (glob_csv two_sources [''input'']) =
      map Inr [[home_win, second_home_win], [away_loss, neutral_win]]"
    by (simp add: glob_two_sources read_week1 read_later)
  note c = C8_order_preserved [where fs = two_sources and p = "[''input'', ''later.csv'']" and
      content = ?text and rt = sample_runtime and input_path = "[''input'']" and
      gss = "[[home_win, second_home_win], [away_loss, neutral_win]]" and
      output_path = "[''output'']"]
  from c 3 4 have 5:
    "read_all sample_runtime two_sources (glob_csv two_sources [''input'']) [] =
       Inr [home_win, second_home_win, away_loss, neutral_win]"
    "run_analytics sample_runtime [''input''] [''output''] two_sources =
       report_and_write sample_runtime [''output''] two_sources
         [home_win, second_home_win, away_loss, neutral_win]"
    by simp_all
  from c 1 n 2 obtain games where 6:
    "read_game_stats sample_runtime two_sources [''input'', ''later.csv''] = Inr games"
    "length games = length ?rows"
    "\<forall>i < length games. make_game sample_runtime (?rows ! i) = Inr (games ! i)"
    unfolding list_all_iff by blast
  from 6(1) have games: "games = [away_loss, neutral_win]" by (simp add: read_later)
  from 6(2) have 7: "length ?rows = 2" by (simp add: games)
  from 6(3) have 8: "make_game sample_runtime (?rows ! 1) = Inr neutral_win" by (simp add: games)
  from 1 n 2 4 5 7 8 read_later glob_two_sources show ?thesis by blast
qed




text \<open>
  C10. A run whose sources hold no data row writes the empty dict to the report when the
  output directory is named by at least one component. With the current directory for
  the output directory the report's path has no directory part; \<^verbatim>\<open>os.makedirs\<close> is
  called on the empty path and raises FileNotFoundError, and no file is written.
\<close>

theorem C10_current_directory_failure:
  "glob_csv header_only [''input''] = [[''input'', ''games.csv'']] \<and>
   read_game_stats sample_runtime header_only [''input'', ''games.csv''] = Inr [] \<and>
   run_analytics sample_runtime [''input''] [] header_only = (Inl FileNotFoundError, header_only) \<and>
   run_analytics sample_runtime [''input''] [''output''] header_only =
     (Inr (PDict []), header_only @ [([''output'', ''eagles_analytics_report.json''], File ''{}'')])"
proof -
  note g = glob_header_only
  have 1: "run_analytics sample_runtime [''input''] [] header_only = (Inl FileNotFoundError, header_only)"
    by (simp add: run_analytics_def g read_header_only calculate_analytics_Nil write_analytics_Inl)
  from g 1 run_header_only read_header_only show ?thesis by blast
qed

end
